theory Spec2Isabelle
  imports Main "HOL-Library.Multiset" "HOL-Library.List_Lexorder"
begin

section \<open>Strings\<close>

text \<open>
  A JavaScript string is a sequence of UTF-16 code units. The texts of this development
  stay inside the Basic Multilingual Plane, where a code unit is a code point and the
  iteration of \<^verbatim>\<open>for ... of\<close> and of the spread \<^verbatim>\<open>[...s]\<close> visits the
  same elements as indexing does. A character is the number of its code unit.
\<close>

type_synonym jschar = nat
type_synonym jsstring = "nat list"

definition str :: "string \<Rightarrow> jsstring" where
  \<comment> \<open>the code units of an ASCII literal\<close>
  "str s = map of_char s"

section \<open>Matcher\<close>

text \<open>
  \<^verbatim>\<open>matchWord(word, input)\<close> of wordScramble.js returns \<^verbatim>\<open>{ check: true, unused }\<close>
  or \<^verbatim>\<open>{ check: false }\<close>; the field \<open>unused\<close> holds the array
  \<^verbatim>\<open>unused.letters\<close> and is absent (\<open>None\<close>) when the check fails.
\<close>

record 'a match =
  check :: bool
  unused :: "'a list option"

text \<open>
  The loop \<^verbatim>\<open>for (let letter in input)\<close>: \<open>word\<close> is the array that
  \<^verbatim>\<open>splice(index, 1)\<close> shrinks, the second argument is the part of \<open>input\<close> not
  scanned yet, the third is \<^verbatim>\<open>unused.letters\<close>. \<^verbatim>\<open>word.indexOf(x) !== -1\<close> is
  \<open>x \<in> set word\<close> and removing the element at that index is \<open>remove1\<close>.
\<close>

fun matchLoop :: "'a list \<Rightarrow> 'a list \<Rightarrow> 'a list \<Rightarrow> 'a match" where
  "matchLoop word [] letters = \<lparr>check = False, unused = None\<rparr>"
| "matchLoop word (l # rest) letters =
     (if l \<in> set word then
        (let word' = remove1 l word in
         if length word' = 0 then \<lparr>check = True, unused = Some (letters @ rest)\<rparr>
         else matchLoop word' rest letters)
      else matchLoop word rest (letters @ [l]))"

definition matchWord :: "'a list \<Rightarrow> 'a list \<Rightarrow> 'a match" where
  "matchWord word input = matchLoop word input []"

text \<open>
  The matching loop that \<^verbatim>\<open>buildWords\<close> of the single-argument variant (part_000)
  runs inline: \<open>backupWord\<close> loses the first occurrence of every input letter it holds,
  the other letters are appended to \<open>unusedLetters\<close>; the word matches when
  \<open>backupWord\<close> ends empty.
\<close>

fun backupLoop :: "'a list \<Rightarrow> 'a list \<Rightarrow> 'a list \<Rightarrow> 'a list \<times> 'a list" where
  "backupLoop backupWord [] unusedLetters = (backupWord, unusedLetters)"
| "backupLoop backupWord (l # rest) unusedLetters =
     (if l \<in> set backupWord then backupLoop (remove1 l backupWord) rest unusedLetters
      else backupLoop backupWord rest (unusedLetters @ [l]))"

definition matches_part_000 :: "'a list \<Rightarrow> 'a list \<Rightarrow> bool" where
  "matches_part_000 word letters = (length (fst (backupLoop word letters [])) = 0)"

text \<open>
  The words of the specification for the unused letters. \<open>remaining word scanned\<close> is
  the candidate multiset left once the letters \<open>scanned\<close> were looked up in it;
  the exhaustion point is the first position \<open>k\<close> of the input at which it becomes
  empty; \<open>skipped word input k\<close> are the letters before position \<open>k\<close>, in their
  order, that were not in the remaining candidate multiset when they were scanned.
\<close>

definition remaining :: "'a list \<Rightarrow> 'a list \<Rightarrow> 'a multiset" where
  "remaining word scanned = mset word - mset scanned"

definition exhausted_at :: "'a list \<Rightarrow> 'a list \<Rightarrow> nat \<Rightarrow> bool" where
  "exhausted_at word input k =
     (k < length input \<and> remaining word (take (Suc k) input) = {#} \<and>
      (\<forall>j\<le>k. remaining word (take j input) \<noteq> {#}))"

definition skipped :: "'a list \<Rightarrow> 'a list \<Rightarrow> nat \<Rightarrow> 'a list" where
  "skipped word input k =
     map (\<lambda>i. input ! i)
       (filter (\<lambda>i. input ! i \<notin># remaining word (take i input)) [0..<k])"

section \<open>Numbers and the texts that denote them\<close>

text \<open>
  A JavaScript number is an integer or \<open>NaN\<close> here. The code adds doubles, whose
  arithmetic on integers is exact as long as the operands and the result stay within
  \<open>2^53\<close> in absolute value; the statements about the value of a score carry that
  bound as a hypothesis (\<open>exactSum\<close> below). A read of a missing key gives
  \<^verbatim>\<open>undefined\<close>, the \<open>None\<close> of \<open>int option\<close>, which
  \<open>toNumber\<close> turns into \<open>NaN\<close> as the operators \<^verbatim>\<open>*=\<close> and \<^verbatim>\<open>+=\<close> do.
\<close>

datatype jsnum = Num int | NaN

fun jsadd :: "jsnum \<Rightarrow> jsnum \<Rightarrow> jsnum" where
  "jsadd (Num a) (Num b) = Num (a + b)"
| "jsadd _ _ = NaN"

fun jssub :: "jsnum \<Rightarrow> jsnum \<Rightarrow> jsnum" where
  "jssub (Num a) (Num b) = Num (a - b)"
| "jssub _ _ = NaN"

fun jsmul :: "jsnum \<Rightarrow> jsnum \<Rightarrow> jsnum" where
  "jsmul (Num a) (Num b) = Num (a * b)"
| "jsmul _ _ = NaN"

fun strictEq :: "jsnum \<Rightarrow> jsnum \<Rightarrow> bool" where
  \<comment> \<open>\<^verbatim>\<open>===\<close> on numbers: \<open>NaN\<close> equals nothing, itself included\<close>
  "strictEq (Num a) (Num b) = (a = b)"
| "strictEq _ _ = False"

definition toNumber :: "int option \<Rightarrow> jsnum" where
  "toNumber v = (case v of Some n \<Rightarrow> Num n | None \<Rightarrow> NaN)"

definition isWhiteSpace :: "jschar \<Rightarrow> bool" where
  \<comment> \<open>the white space and line terminators that \<^verbatim>\<open>Number\<close>, \<^verbatim>\<open>parseInt\<close> and
      the class \<^verbatim>\<open>\s\<close> skip\<close>
  "isWhiteSpace c =
     (c \<in> {9, 10, 11, 12, 13, 32, 160, 5760, 8232, 8233, 8239, 8287, 12288, 65279} \<or>
      (8192 \<le> c \<and> c \<le> 8202))"

definition isDecimalDigit :: "jschar \<Rightarrow> bool" where
  "isDecimalDigit c = (48 \<le> c \<and> c \<le> 57)"

definition digitValue :: "jschar \<Rightarrow> nat option" where
  \<comment> \<open>the value of a digit \<^verbatim>\<open>0-9\<close>, \<^verbatim>\<open>a-z\<close> or \<^verbatim>\<open>A-Z\<close>\<close>
  "digitValue c =
     (if 48 \<le> c \<and> c \<le> 57 then Some (c - 48)
      else if 97 \<le> c \<and> c \<le> 122 then Some (c - 87)
      else if 65 \<le> c \<and> c \<le> 90 then Some (c - 55)
      else None)"

definition isRadixDigit :: "nat \<Rightarrow> jschar \<Rightarrow> bool" where
  "isRadixDigit R c = (case digitValue c of Some v \<Rightarrow> v < R | None \<Rightarrow> False)"

definition radixValue :: "nat \<Rightarrow> jsstring \<Rightarrow> nat" where
  "radixValue R Z = foldl (\<lambda>a c. a * R + the (digitValue c)) 0 Z"

text \<open>
  \<^verbatim>\<open>parseInt(string)\<close> with no radix: leading white space is dropped, then a sign,
  then \<^verbatim>\<open>0x\<close> or \<^verbatim>\<open>0X\<close> selects radix 16; the value is that of the longest
  prefix of digits, and \<open>NaN\<close> (\<open>None\<close>) when that prefix is empty. The result is
  only compared with \<^verbatim>\<open>>= 0\<close> and with positions by \<^verbatim>\<open>===\<close>, which do not tell
  \<open>-0\<close> from \<open>0\<close>, so \<open>-0\<close> is \<open>0\<close> here; the rounding of integers beyond
  \<open>2^53\<close> keeps their sign and keeps them beyond every position of a string.
\<close>

definition parseInt :: "jsstring \<Rightarrow> int option" where
  "parseInt string =
     (let S = dropWhile isWhiteSpace string;
          sign = (case S of c # _ \<Rightarrow> if c = 45 then - 1 else 1 | [] \<Rightarrow> (1::int));
          S1 = (case S of c # cs \<Rightarrow> if c = 43 \<or> c = 45 then cs else S | [] \<Rightarrow> S);
          hex = (take 2 S1 = [48, 120] \<or> take 2 S1 = [48, 88]);
          R = (if hex then 16 else 10);
          S2 = (if hex then drop 2 S1 else S1);
          Z = takeWhile (isRadixDigit R) S2
      in if Z = [] then None else Some (sign * int (radixValue R Z)))"

text \<open>
  \<^verbatim>\<open>isNaN(string)\<close> converts the text with \<^verbatim>\<open>Number\<close>, which gives \<open>NaN\<close>
  exactly when the text is not a \<^verbatim>\<open>StringNumericLiteral\<close>: optional white space
  around nothing, or around a signed decimal literal (\<^verbatim>\<open>Infinity\<close>, digits with an
  optional fraction and exponent) or an unsigned binary, octal or hexadecimal integer.
\<close>

definition decimalDigits :: "jsstring \<Rightarrow> bool" where
  "decimalDigits ds = (ds \<noteq> [] \<and> list_all isDecimalDigit ds)"

definition signedInteger :: "jsstring \<Rightarrow> bool" where
  "signedInteger cs =
     (case cs of [] \<Rightarrow> False
      | d # ds \<Rightarrow> if d = 43 \<or> d = 45 then decimalDigits ds else decimalDigits cs)"

definition exponentPartOpt :: "jsstring \<Rightarrow> bool" where
  "exponentPartOpt e =
     (case e of [] \<Rightarrow> True | c # cs \<Rightarrow> (c = 101 \<or> c = 69) \<and> signedInteger cs)"

definition strUnsignedDecimalLiteral :: "jsstring \<Rightarrow> bool" where
  "strUnsignedDecimalLiteral s =
     (s = str ''Infinity'' \<or>
      (let intPart = takeWhile isDecimalDigit s; r = dropWhile isDecimalDigit s in
       case r of
         [] \<Rightarrow> intPart \<noteq> []
       | c # r' \<Rightarrow>
           if c = 46 then
             (let frac = takeWhile isDecimalDigit r'; e = dropWhile isDecimalDigit r'
              in (intPart \<noteq> [] \<or> frac \<noteq> []) \<and> exponentPartOpt e)
           else intPart \<noteq> [] \<and> exponentPartOpt r))"

definition strDecimalLiteral :: "jsstring \<Rightarrow> bool" where
  "strDecimalLiteral s =
     (case s of [] \<Rightarrow> False
      | c # cs \<Rightarrow> if c = 43 \<or> c = 45 then strUnsignedDecimalLiteral cs
                 else strUnsignedDecimalLiteral s)"

definition nonDecimalIntegerLiteral :: "jsstring \<Rightarrow> bool" where
  "nonDecimalIntegerLiteral s =
     (case s of
        z # p # ds \<Rightarrow>
          z = 48 \<and> ds \<noteq> [] \<and>
          ((p = 98 \<or> p = 66) \<and> list_all (isRadixDigit 2) ds \<or>
           (p = 111 \<or> p = 79) \<and> list_all (isRadixDigit 8) ds \<or>
           (p = 120 \<or> p = 88) \<and> list_all (isRadixDigit 16) ds)
      | _ \<Rightarrow> False)"

definition trimString :: "jsstring \<Rightarrow> jsstring" where
  "trimString s = rev (dropWhile isWhiteSpace (rev (dropWhile isWhiteSpace s)))"

definition isStringNumericLiteral :: "jsstring \<Rightarrow> bool" where
  "isStringNumericLiteral s =
     (let t = trimString s in t = [] \<or> strDecimalLiteral t \<or> nonDecimalIntegerLiteral t)"

definition isNaN :: "jsstring \<Rightarrow> bool" where
  "isNaN s = (\<not> isStringNumericLiteral s)"

section \<open>Bonus position\<close>

record bonus =
  position :: jsstring

definition removeWhitespaces :: "jsstring \<Rightarrow> jsstring" where
  \<comment> \<open>\<^verbatim>\<open>replace(/ /g, "")\<close>: only the space U+0020 is removed\<close>
  "removeWhitespaces s = filter (\<lambda>c. c \<noteq> 32) s"

text \<open>
  \<^verbatim>\<open>checkBonusPosition(bonus)\<close> rewrites \<^verbatim>\<open>bonus.position\<close> in place and answers
  \<^verbatim>\<open>!isNaN(bonus.position) && parseInt(bonus.position) >= 0\<close>; the result is the
  answer and the updated record.
\<close>

definition checkBonusPosition :: "bonus \<Rightarrow> bool \<times> bonus" where
  "checkBonusPosition bonus =
     (let bonus' = bonus\<lparr>position := removeWhitespaces (position bonus)\<rparr>
      in (\<not> isNaN (position bonus') \<and>
          (case parseInt (position bonus') of Some n \<Rightarrow> n \<ge> 0 | None \<Rightarrow> False),
          bonus'))"

text \<open>
  The words of the specification for a valid bonus text: a non-negative integer, written
  as a non-empty sequence of decimal digits.
\<close>

definition nonNegativeIntegerText :: "jsstring \<Rightarrow> bool" where
  "nonNegativeIntegerText s = (s \<noteq> [] \<and> list_all isDecimalDigit s)"

section \<open>Scorer\<close>

datatype error = TypeError

record matched =
  word :: jsstring
  unusedLetters :: jsstring

record scored = matched +
  score :: jsnum

text \<open>
  The loop \<^verbatim>\<open>for (let index in match.word)\<close> of \<^verbatim>\<open>scoreWords\<close>; \<open>table\<close> is
  \<^verbatim>\<open>this.score\<close>, \<open>index\<close> the index of the first letter of the letters still to
  visit, and \<open>acc\<close> the running \<^verbatim>\<open>score\<close>. \<^verbatim>\<open>++index\<close> is the 1-based
  position, compared with \<^verbatim>\<open>parseInt(bonus.position)\<close>.
\<close>

fun scoreLetters :: "(jschar \<rightharpoonup> int) \<Rightarrow> bonus \<Rightarrow> jsstring \<Rightarrow> nat \<Rightarrow> jsnum \<Rightarrow> jsnum" where
  "scoreLetters table bonus [] index acc = acc"
| "scoreLetters table bonus (c # cs) index acc =
     (let letterScore = toNumber (table c);
          letterScore' = (if Some (int (Suc index)) = parseInt (position bonus)
                          then jsmul letterScore (Num 2) else letterScore)
      in scoreLetters table bonus cs (Suc index) (jsadd acc letterScore'))"

text \<open>
  \<^verbatim>\<open>scoreWords\<close> stores the score in every matched word. Its body is wrapped in
  \<^verbatim>\<open>try { ... } catch (error) { throw error; }\<close>, and no statement of the body throws:
  the table was loaded by the constructor and a missing key reads as \<^verbatim>\<open>undefined\<close>.
\<close>

definition scoreWords :: "(jschar \<rightharpoonup> int) \<Rightarrow> matched list \<Rightarrow> bonus \<Rightarrow> error + scored list" where
  "scoreWords table matchedWords bonus =
     Inr (map (\<lambda>match. \<lparr>word = word match, unusedLetters = unusedLetters match,
                         score = scoreLetters table bonus (word match) 0 (Num 0)\<rparr>)
            matchedWords)"

text \<open>
  The words of the specification for a score: the sum over the 1-based positions of the
  word of the table's value of the letter, doubled at the bonus position; and the plain
  sum.
\<close>

definition letterValue :: "(jschar \<rightharpoonup> int) \<Rightarrow> jschar \<Rightarrow> int" where
  "letterValue table c = the (table c)"

definition bonusSum :: "(jschar \<rightharpoonup> int) \<Rightarrow> int \<Rightarrow> jsstring \<Rightarrow> int" where
  "bonusSum table b w =
     (\<Sum>i = 1..length w. if int i = b then 2 * letterValue table (w ! (i - 1))
                          else letterValue table (w ! (i - 1)))"

definition plainSum :: "(jschar \<rightharpoonup> int) \<Rightarrow> jsstring \<Rightarrow> int" where
  "plainSum table w = (\<Sum>i = 1..length w. letterValue table (w ! (i - 1)))"

definition contribution :: "(jschar \<rightharpoonup> int) \<Rightarrow> int \<Rightarrow> nat \<Rightarrow> jschar \<Rightarrow> int" where
  \<comment> \<open>what the letter \<open>c\<close> at the 1-based position \<open>i\<close> adds to the score\<close>
  "contribution table b i c =
     (if int i = b then 2 * letterValue table c else letterValue table c)"

definition exactSum :: "(jschar \<rightharpoonup> int) \<Rightarrow> jsstring \<Rightarrow> bool" where
  \<comment> \<open>the letter values of the word, each doubled, add up to at most \<open>2^53\<close> in
      absolute value: every sum and every doubling of the scorer is then exact in doubles\<close>
  "exactSum table w = ((\<Sum>c\<leftarrow>w. 2 * \<bar>letterValue table c\<bar>) \<le> 2 ^ 53)"

definition exampleScore :: "jschar \<rightharpoonup> int" where
  \<comment> \<open>the table \<^verbatim>\<open>{A:1, C:3, T:1}\<close> of the specification's example\<close>
  "exampleScore = [65 \<mapsto> 1, 67 \<mapsto> 3, 84 \<mapsto> 1]"

section \<open>Ranker\<close>

text \<open>
  \<^verbatim>\<open>Array.prototype.sort(compare)\<close> is stable, and with a consistent comparator its
  result is the one stably sorted permutation of the array, which insertion from the right
  computes: an element goes before the first element it does not compare greater than.
  A comparator result that is \<open>NaN\<close> counts as \<open>+0\<close>.
\<close>

definition sortValue :: "jsnum \<Rightarrow> int" where
  "sortValue v = (case v of Num n \<Rightarrow> n | NaN \<Rightarrow> 0)"

fun insertSorted :: "('a \<Rightarrow> 'a \<Rightarrow> jsnum) \<Rightarrow> 'a \<Rightarrow> 'a list \<Rightarrow> 'a list" where
  "insertSorted compare x [] = [x]"
| "insertSorted compare x (y # ys) =
     (if sortValue (compare x y) \<le> 0 then x # y # ys
      else y # insertSorted compare x ys)"

definition js_sort :: "('a \<Rightarrow> 'a \<Rightarrow> jsnum) \<Rightarrow> 'a list \<Rightarrow> 'a list" where
  "js_sort compare xs = foldr (insertSorted compare) xs []"

text \<open>
  \<^verbatim>\<open>a.localeCompare(b)\<close> on canonical words: for words of the unaccented capital
  letters, in a locale without contractions, the collation order is the lexicographic
  order of the letters, which is the order of the code units. On other words (an accented
  capital that the table does not fold) the collation differs from the code units, and
  the statement about the alphabetical stage carries \<open>canonicalWord\<close> as a
  hypothesis.
\<close>

definition localeCompare :: "jsstring \<Rightarrow> jsstring \<Rightarrow> int" where
  "localeCompare a b = (if a < b then - 1 else if a = b then 0 else 1)"

definition canonicalWord :: "jsstring \<Rightarrow> bool" where
  \<comment> \<open>a word of the unaccented capital letters A to Z, where \<open>localeCompare\<close> above
      is the comparison of the code\<close>
  "canonicalWord w = (\<forall>c\<in>set w. 65 \<le> c \<and> c \<le> 90)"

definition sortWordsByScore :: "scored list \<Rightarrow> scored list" where
  "sortWordsByScore matchedWords = js_sort (\<lambda>a b. jssub (score b) (score a)) matchedWords"

definition sortWordsByLength :: "scored list \<Rightarrow> scored list" where
  "sortWordsByLength matchedWords =
     js_sort (\<lambda>a b. Num (int (length (word a)) - int (length (word b)))) matchedWords"

definition sortWordsAlphabetically :: "scored list \<Rightarrow> scored list" where
  "sortWordsAlphabetically matchedWords =
     js_sort (\<lambda>a b. Num (localeCompare (word a) (word b))) matchedWords"

text \<open>
  \<^verbatim>\<open>removeLowerScores\<close> and \<^verbatim>\<open>removeHigherLengths\<close> read \<^verbatim>\<open>matchedWords[0]\<close>,
  a \<^verbatim>\<open>TypeError\<close> on the empty array, and cut the array at the first index whose
  element differs in score (\<^verbatim>\<open>!==\<close>), or is longer (\<^verbatim>\<open>>\<close>).
\<close>

definition removeLowerScores :: "scored list \<Rightarrow> error + scored list" where
  "removeLowerScores matchedWords =
     (case matchedWords of
        [] \<Rightarrow> Inl TypeError
      | first # _ \<Rightarrow> Inr (takeWhile (\<lambda>m. strictEq (score m) (score first)) matchedWords))"

definition removeHigherLengths :: "scored list \<Rightarrow> error + scored list" where
  "removeHigherLengths matchedWords =
     (case matchedWords of
        [] \<Rightarrow> Inl TypeError
      | first # _ \<Rightarrow>
          Inr (takeWhile (\<lambda>m. \<not> length (word m) > length (word first)) matchedWords))"

text \<open>
  \<^verbatim>\<open>rankWords\<close> of wordScramble.js works on the array in place; the result is the array
  it leaves, whose first element the caller prints as the winner.
\<close>

definition rankWords :: "scored list \<Rightarrow> error + scored list" where
  "rankWords matchedWords =
     (case removeLowerScores (sortWordsByScore matchedWords) of
        Inl e \<Rightarrow> Inl e
      | Inr highest \<Rightarrow>
          if length highest > 1 then
            (case removeHigherLengths (sortWordsByLength highest) of
               Inl e \<Rightarrow> Inl e
             | Inr shortest \<Rightarrow>
                 if length shortest > 1 then Inr (sortWordsAlphabetically shortest)
                 else Inr shortest)
          else Inr highest)"

text \<open>
  The single-argument variant (part_000): comparators written with \<^verbatim>\<open><\<close> and
  \<^verbatim>\<open>>\<close>, filters in place of the cuts, and the result is \<^verbatim>\<open>array.shift()\<close>, the
  first element or \<^verbatim>\<open>undefined\<close>.
\<close>

fun jsless :: "jsnum \<Rightarrow> jsnum \<Rightarrow> bool" where
  "jsless (Num a) (Num b) = (a < b)"
| "jsless _ _ = False"

definition sortWordsByScore_part_000 :: "scored list \<Rightarrow> scored list" where
  "sortWordsByScore_part_000 array =
     js_sort (\<lambda>a b. if jsless (score a) (score b) then Num 1
                     else if jsless (score b) (score a) then Num (- 1) else Num 0) array"

definition sortWordsByLength_part_000 :: "scored list \<Rightarrow> scored list" where
  "sortWordsByLength_part_000 array =
     js_sort (\<lambda>a b. if length (word a) > length (word b) then Num 1
                     else if length (word a) < length (word b) then Num (- 1) else Num 0) array"

definition filterHighestScores :: "scored list \<Rightarrow> error + scored list" where
  "filterHighestScores array =
     (case array of
        [] \<Rightarrow> Inl TypeError
      | first # _ \<Rightarrow> Inr (filter (\<lambda>object. strictEq (score object) (score first)) array))"

definition filterLowestLengths :: "scored list \<Rightarrow> error + scored list" where
  "filterLowestLengths array =
     (case array of
        [] \<Rightarrow> Inl TypeError
      | first # _ \<Rightarrow> Inr (filter (\<lambda>a. length (word a) = length (word first)) array))"

definition shift :: "'a list \<Rightarrow> 'a option" where
  "shift array = (case array of [] \<Rightarrow> None | x # _ \<Rightarrow> Some x)"

definition rankWords_part_000 :: "scored list \<Rightarrow> error + scored option" where
  "rankWords_part_000 array =
     (case filterHighestScores (sortWordsByScore_part_000 array) of
        Inl e \<Rightarrow> Inl e
      | Inr highest \<Rightarrow>
          if length highest > 1 then
            (case filterLowestLengths (sortWordsByLength_part_000 highest) of
               Inl e \<Rightarrow> Inl e
             | Inr shortest \<Rightarrow>
                 if length shortest > 1
                 then Inr (shift (take 1 (sortWordsAlphabetically shortest)))
                 else Inr (shift shortest))
          else Inr (shift highest))"

text \<open>
  The words of the specification for the winner: a candidate of maximal score, among
  those of minimal length, among those with the lexicographically least word.
\<close>

fun scoreLe :: "jsnum \<Rightarrow> jsnum \<Rightarrow> bool" where
  "scoreLe (Num a) (Num b) = (a \<le> b)"
| "scoreLe _ _ = False"

definition best :: "scored list \<Rightarrow> scored \<Rightarrow> bool" where
  "best cs w =
     (w \<in> set cs \<and>
      (\<forall>c\<in>set cs. scoreLe (score c) (score w)) \<and>
      (\<forall>c\<in>set cs. score c = score w \<longrightarrow> length (word w) \<le> length (word c)) \<and>
      (\<forall>c\<in>set cs. score c = score w \<and> length (word c) = length (word w) \<longrightarrow>
           word w \<le> word c))"

definition numOf :: "jsnum \<Rightarrow> int" where
  \<comment> \<open>the integer of a score that is a number\<close>
  "numOf v = (case v of Num n \<Rightarrow> n | NaN \<Rightarrow> 0)"

definition candidate :: "string \<Rightarrow> int \<Rightarrow> scored" where
  "candidate w n = \<lparr>word = str w, unusedLetters = [], score = Num n\<rparr>"

section \<open>Normalizer\<close>

text \<open>
  The formatting helpers of wordScramble.js take an object and a key and rewrite the field
  in place; here each takes the text and returns the new text, and \<^verbatim>\<open>formatWord\<close>
  chains them in the order of the source. The helper \<^verbatim>\<open>removeWhitespaces\<close> is
  defined with the bonus position above.
\<close>

definition removeNumbers :: "jsstring \<Rightarrow> jsstring" where
  \<comment> \<open>\<^verbatim>\<open>replace(/[0-9]+/g, "")\<close>\<close>
  "removeNumbers s = filter (\<lambda>c. \<not> isDecimalDigit c) s"

definition isLetter :: "jschar \<Rightarrow> bool" where
  \<comment> \<open>the class \<^verbatim>\<open>[a-z\<close>U+00E0\<^verbatim>\<open>-\<close>U+00FC\<^verbatim>\<open>A-Z\<close>U+00C0\<^verbatim>\<open>-\<close>U+00DC\<^verbatim>\<open>]\<close>\<close>
  "isLetter c =
     (97 \<le> c \<and> c \<le> 122 \<or> 224 \<le> c \<and> c \<le> 252 \<or>
      65 \<le> c \<and> c \<le> 90 \<or> 192 \<le> c \<and> c \<le> 220)"

definition removeSpecialCharacters :: "jsstring \<Rightarrow> jsstring" where
  \<comment> \<open>wordScramble.js: every character outside the class of letters is removed\<close>
  "removeSpecialCharacters s = filter isLetter s"

definition isWordChar :: "jschar \<Rightarrow> bool" where
  \<comment> \<open>the class \<^verbatim>\<open>\w\<close>: \<^verbatim>\<open>[A-Za-z0-9_]\<close>\<close>
  "isWordChar c =
     (65 \<le> c \<and> c \<le> 90 \<or> 97 \<le> c \<and> c \<le> 122 \<or> 48 \<le> c \<and> c \<le> 57 \<or> c = 95)"

definition removeSpecialCharacters_part_000 :: "jsstring \<Rightarrow> jsstring" where
  \<comment> \<open>part_000: \<^verbatim>\<open>replace(/[^\w\s]+/g, "")\<close>\<close>
  "removeSpecialCharacters_part_000 s = filter (\<lambda>c. isWordChar c \<or> isWhiteSpace c) s"

text \<open>
  \<^verbatim>\<open>toUpperCase\<close>, character by character, is exact here for the code units below
  256 (Basic Latin and Latin-1): the small letters lose 32, the sharp s becomes SS, and
  the micro sign and the y with diaeresis move to U+039C and U+0178. A code unit from 256
  on is left as it is, which is outside what is modelled: the statements about
  \<^verbatim>\<open>toUpperCase\<close> on raw text are about texts below 256.
\<close>

definition toUpperCaseChar :: "jschar \<Rightarrow> jsstring" where
  "toUpperCaseChar c =
     (if 97 \<le> c \<and> c \<le> 122 then [c - 32]
      else if c = 181 then [924]
      else if c = 223 then [83, 83]
      else if 224 \<le> c \<and> c \<le> 254 \<and> c \<noteq> 247 then [c - 32]
      else if c = 255 then [376]
      else [c])"

definition uppercase :: "jsstring \<Rightarrow> jsstring" where
  "uppercase s = concat (map toUpperCaseChar s)"

text \<open>
  \<^verbatim>\<open>text.replace(letter, value)\<close> with a string pattern replaces the first occurrence
  of the letter. The replacement text is expanded by \<^verbatim>\<open>GetSubstitution\<close>: \<^verbatim>\<open>$$\<close> is a
  dollar sign, \<^verbatim>\<open>$&\<close> the matched letter, \<^verbatim>\<open>$`\<close> the text before the match,
  \<^verbatim>\<open>$'\<close> the text after it, and every other character stands for itself (a string
  pattern has no captures).
\<close>

fun getSubstitution :: "jsstring \<Rightarrow> jsstring \<Rightarrow> jsstring \<Rightarrow> jsstring \<Rightarrow> jsstring" where
  "getSubstitution matched pre post [] = []"
| "getSubstitution matched pre post [c] = [c]"
| "getSubstitution matched pre post (c # d # rest) =
     (if c = 36 \<and> d = 36 then 36 # getSubstitution matched pre post rest
      else if c = 36 \<and> d = 38 then matched @ getSubstitution matched pre post rest
      else if c = 36 \<and> d = 96 then pre @ getSubstitution matched pre post rest
      else if c = 36 \<and> d = 39 then post @ getSubstitution matched pre post rest
      else c # getSubstitution matched pre post (d # rest))"

definition replaceFirst :: "jschar \<Rightarrow> jsstring \<Rightarrow> jsstring \<Rightarrow> jsstring" where
  "replaceFirst letter value s =
     (let pre = takeWhile (\<lambda>c. c \<noteq> letter) s in
      case dropWhile (\<lambda>c. c \<noteq> letter) s of
        [] \<Rightarrow> s
      | _ # post \<Rightarrow> pre @ getSubstitution [letter] pre post value @ post)"

text \<open>
  \<^verbatim>\<open>removeAccentuation\<close>: the loop \<^verbatim>\<open>for (let letter of word[key])\<close> runs over the
  letters of the text as it was on entry, and each letter that is a key of the table
  \<^verbatim>\<open>this.accentuation\<close> rewrites the current text. The table maps a character to the
  text that replaces it.
\<close>

definition removeAccentuation :: "(jschar \<rightharpoonup> jsstring) \<Rightarrow> jsstring \<Rightarrow> jsstring" where
  "removeAccentuation accentuation s =
     foldl (\<lambda>current letter.
              case accentuation letter of
                Some v \<Rightarrow> replaceFirst letter v current
              | None \<Rightarrow> current) s s"

definition formatWord :: "(jschar \<rightharpoonup> jsstring) \<Rightarrow> jsstring \<Rightarrow> jsstring" where
  \<comment> \<open>the in-place variant, wordScramble.js\<close>
  "formatWord accentuation letters =
     removeAccentuation accentuation
       (uppercase (removeSpecialCharacters (removeNumbers (removeWhitespaces letters))))"

definition formatWord_part_000 :: "(jschar \<rightharpoonup> jsstring) \<Rightarrow> jsstring \<Rightarrow> jsstring" where
  \<comment> \<open>the single-argument variant, part_000\<close>
  "formatWord_part_000 accentuation letters =
     removeSpecialCharacters_part_000
       (removeAccentuation accentuation
          (removeNumbers (removeWhitespaces (uppercase letters))))"

text \<open>
  The texts and tables on which the two variants are compared. A plain character is
  an ASCII character other than the underscore and the control characters that count as
  white space; an accented letter is a character of the ranges U+00C0 to U+00DC and
  U+00E0 to U+00FC. A folding table has keys outside ASCII and values made of the capital
  letters A to Z.
\<close>

definition plainChar :: "jschar \<Rightarrow> bool" where
  "plainChar c = (c < 128 \<and> c \<noteq> 95 \<and> \<not> (9 \<le> c \<and> c \<le> 13))"

definition accentedLetter :: "jschar \<Rightarrow> bool" where
  "accentedLetter c = (192 \<le> c \<and> c \<le> 220 \<or> 224 \<le> c \<and> c \<le> 252)"

definition foldingTable :: "(jschar \<rightharpoonup> jsstring) \<Rightarrow> bool" where
  "foldingTable accentuation =
     (\<forall>k v. accentuation k = Some v \<longrightarrow> 128 \<le> k \<and> (\<forall>x\<in>set v. 65 \<le> x \<and> x \<le> 90))"

definition foldable :: "(jschar \<rightharpoonup> jsstring) \<Rightarrow> jsstring \<Rightarrow> bool" where
  "foldable accentuation s =
     (\<forall>c\<in>set s. plainChar c \<or>
                 accentedLetter c \<and> (\<exists>u. toUpperCaseChar c = [u] \<and> u \<in> dom accentuation))"

definition exampleAccentuation :: "jschar \<rightharpoonup> jsstring" where
  \<comment> \<open>a table that folds the capital E with acute accent, U+00C9, to E\<close>
  "exampleAccentuation = [201 \<mapsto> [69]]"

section \<open>Round\<close>




text \<open>
  The assets the constructor loads (\<open>scores\<close> is \<^verbatim>\<open>this.score\<close>, the name
  \<open>score\<close> being the field of a scored word), and the pipeline that the callback of
  \<^verbatim>\<open>getUserInputs\<close> runs on the formatted input letters once the bonus position was
  accepted: build the matched words; when there are some, score them, rank them, and
  print \<^verbatim>\<open>matchedWords[0]\<close>, which throws a \<^verbatim>\<open>TypeError\<close> when the array was left
  empty. \<open>None\<close> is the outcome that no word was found.
\<close>

record assets =
  accentuation :: "jschar \<rightharpoonup> jsstring"
  scores :: "jschar \<rightharpoonup> int"
  "words" :: "jsstring list"





text \<open>
  Devices of the proofs about the normalizer: the text that replaces one character when
  the table is applied, and the canonical text of one character of the input.
\<close>

definition foldChar :: "(jschar \<rightharpoonup> jsstring) \<Rightarrow> jschar \<Rightarrow> jsstring" where
  "foldChar acc c = (case acc c of Some v \<Rightarrow> v | None \<Rightarrow> [c])"

definition canonical :: "(jschar \<rightharpoonup> jsstring) \<Rightarrow> jschar \<Rightarrow> jsstring" where
  "canonical acc c =
     (if isLetter c then concat (map (foldChar acc) (toUpperCaseChar c)) else [])"

text \<open>
  Devices of the proofs about the ranker: the sort keys, the elements of a list whose key
  is least, in their order, and the list that \<^verbatim>\<open>rankWords\<close> leaves when every score
  is a number.
\<close>

definition byScore :: "scored \<Rightarrow> int" where
  "byScore m = - numOf (score m)"

definition byLength :: "scored \<Rightarrow> nat" where
  "byLength m = length (word m)"

definition keep_least :: "('a \<Rightarrow> 'k::linorder) \<Rightarrow> 'a list \<Rightarrow> 'a list" where
  "keep_least f xs = filter (\<lambda>x. \<forall>y\<in>set xs. f x \<le> f y) xs"

definition finalists :: "scored list \<Rightarrow> scored list" where
  "finalists cs =
     (let highest = keep_least byScore cs in
      if length highest > 1 then
        (let shortest = keep_least byLength highest in
         if length shortest > 1 then sort_key word shortest else shortest)
      else highest)"

section \<open>The empty word\<close>

lemma matchLoop_empty_word:
  "matchLoop [] input letters = \<lparr>check = False, unused = None\<rparr>"
  by (induction input arbitrary: letters) simp_all

text \<open>
  Claim C9. Whatever the input letters are (the empty input included), an empty candidate
  word is not matched: the test for an exhausted word is reached only after an input
  letter was found in the word, and nothing is ever found in the empty word.
\<close>

theorem C9_empty_word_never_matches:
  "check (matchWord [] input) = False \<and> unused (matchWord [] input) = None"
  by (simp add: matchWord_def matchLoop_empty_word)

section \<open>Matching is multiset containment\<close>

lemma mset_subset_add_notin:
  "x \<notin># A \<Longrightarrow> (A \<subseteq># add_mset x B) = (A \<subseteq># B)"
  by (metis diff_single_trivial subset_eq_diff_conv add_mset_add_single
      mset_subset_eq_add_left subset_mset.order_trans)

lemma mset_subset_add_in:
  "x \<in># A \<Longrightarrow> (A \<subseteq># add_mset x B) = (A - {#x#} \<subseteq># B)"
  by (metis add_mset_add_single subset_eq_diff_conv)

lemma check_matchLoop:
  "w \<noteq> [] \<Longrightarrow> check (matchLoop w input letters) = (mset w \<subseteq># mset input)"
proof (induction input arbitrary: w letters)
  case Nil
  then show ?case by simp
next
  case (Cons l rest)
  show ?case
  proof (cases "l \<in> set w")
    case True
    show ?thesis
    proof (cases "remove1 l w = []")
      case e: True
      have "mset w - {#l#} = {#}"
        using e by (metis mset_remove1 mset.simps(1))
      then show ?thesis
        using True e by (simp add: mset_subset_add_in)
    next
      case ne: False
      then show ?thesis
        using True Cons.IH[OF ne] by (simp add: mset_subset_add_in)
    qed
  next
    case False
    then show ?thesis
      using Cons by (simp add: mset_subset_add_notin)
  qed
qed

lemma mset_backupLoop:
  "mset (fst (backupLoop w letters u)) = mset w - mset letters"
  by (induction w letters u rule: backupLoop.induct) (simp_all add: diff_single_trivial)

lemma matches_part_000_iff:
  "matches_part_000 w letters = (mset w \<subseteq># mset letters)"
proof -
  have "(fst (backupLoop w letters []) = []) = (mset w - mset letters = {#})"
    by (metis mset_backupLoop mset_zero_iff)
  then show ?thesis
    by (simp add: matches_part_000_def Diff_eq_empty_iff_mset)
qed

text \<open>
  Claim C1, as stated, fails on \<^verbatim>\<open>matchWord\<close>: the empty word is contained, as a
  multiset, in every input, and is not matched.
\<close>

theorem C1_empty_word_counterexample:
  "check (matchWord ([] :: jsstring) (str ''A'')) \<noteq> (mset ([] :: jsstring) \<subseteq># mset (str ''A''))"
  by (simp add: matchWord_def str_def)

text \<open>
  Claim C1, amended. For every non-empty word and every input, \<^verbatim>\<open>matchWord\<close>
  reports a match exactly when every character of the word, counted with multiplicity,
  occurs in the input with at least that multiplicity. The inline matcher of the
  single-argument variant satisfies the equivalence for every word, the empty one
  included.
\<close>

theorem C1_match_iff_multiset_containment:
  "(w \<noteq> [] \<longrightarrow> check (matchWord w input) = (mset w \<subseteq># mset input)) \<and>
   matches_part_000 w input = (mset w \<subseteq># mset input)"
  by (simp add: matchWord_def check_matchLoop matches_part_000_iff)

theorem C1_match_iff_multiset_containment_witness:
  "str ''CAT'' \<noteq> [] \<and> check (matchWord (str ''CAT'') (str ''TACO'')) \<and>
   mset (str ''CAT'') \<subseteq># mset (str ''TACO'') \<and>
   \<not> check (matchWord (str ''DOG'') (str ''CAT'')) \<and>
   \<not> mset (str ''DOG'') \<subseteq># mset (str ''CAT'')"
  using C1_match_iff_multiset_containment[of "str ''CAT''" "str ''TACO''"]
    C1_match_iff_multiset_containment[of "str ''DOG''" "str ''CAT''"]
  by (simp add: matchWord_def str_def)

section \<open>The unused letters of a match\<close>

lemma skipped_Cons:
  "skipped w (l # rest) (Suc k) =
     (if l \<in> set w then [] else [l]) @ skipped (remove1 l w) rest k"
proof -
  have u: "[0..<Suc k] = 0 # map Suc [0..<k]"
    by (simp add: upt_conv_Cons map_Suc_upt del: upt_Suc)
  show ?thesis
    unfolding skipped_def u
    by (simp add: remaining_def filter_map o_def del: upt_Suc)
qed

lemma exhausted_at_Cons:
  "exhausted_at w (l # rest) (Suc k) =
     (w \<noteq> [] \<and> exhausted_at (remove1 l w) rest k)"
proof -
  have r: "\<And>j. remaining w (take (Suc j) (l # rest)) =
                remaining (remove1 l w) (take j rest)"
    by (simp add: remaining_def)
  have a: "(\<forall>j\<le>Suc k. remaining w (take j (l # rest)) \<noteq> {#}) =
        (remaining w [] \<noteq> {#} \<and>
         (\<forall>j\<le>k. remaining w (take (Suc j) (l # rest)) \<noteq> {#}))"
    by (metis (no_types, lifting) Suc_le_mono le0 not0_implies_Suc take_eq_Nil)
  show ?thesis
    unfolding exhausted_at_def a r by (auto simp: remaining_def)
qed

lemma unused_matchLoop:
  "check (matchLoop w input letters) \<Longrightarrow>
   \<exists>k. exhausted_at w input k \<and>
       unused (matchLoop w input letters) =
         Some (letters @ skipped w input k @ drop (Suc k) input)"
proof (induction input arbitrary: w letters)
  case Nil
  then show ?case by simp
next
  case (Cons l rest)
  show ?case
  proof (cases "l \<in> set w")
    case True
    show ?thesis
    proof (cases "remove1 l w = []")
      case e: True
      have "mset (remove1 l w) = mset w - {#l#}" by simp
      then have "exhausted_at w (l # rest) 0"
        using True e by (auto simp: exhausted_at_def remaining_def)
      moreover have "skipped w (l # rest) 0 = []"
        by (simp add: skipped_def)
      ultimately show ?thesis
        using True e by (intro exI[of _ 0]) simp
    next
      case ne: False
      have c: "check (matchLoop (remove1 l w) rest letters)"
        using Cons.prems True ne by simp
      from Cons.IH[OF c] obtain k where k: "exhausted_at (remove1 l w) rest k"
        "unused (matchLoop (remove1 l w) rest letters) =
           Some (letters @ skipped (remove1 l w) rest k @ drop (Suc k) rest)"
        by blast
      have "w \<noteq> []" using True by auto
      then have "exhausted_at w (l # rest) (Suc k)"
        using k(1) by (simp add: exhausted_at_Cons)
      then show ?thesis
        using True ne k(2) by (intro exI[of _ "Suc k"]) (simp add: skipped_Cons)
    qed
  next
    case False
    have c: "check (matchLoop w rest (letters @ [l]))"
      using Cons.prems False by simp
    from Cons.IH[OF c] obtain k where k: "exhausted_at w rest k"
      "unused (matchLoop w rest (letters @ [l])) =
         Some ((letters @ [l]) @ skipped w rest k @ drop (Suc k) rest)"
      by blast
    have w: "w \<noteq> []"
      using k(1) by (auto simp: exhausted_at_def remaining_def)
    have same: "remove1 l w = w"
      using False by (simp add: remove1_idem)
    then have "exhausted_at w (l # rest) (Suc k)"
      using k(1) w by (simp add: exhausted_at_Cons)
    then show ?thesis
      using False k(2) same by (intro exI[of _ "Suc k"]) (simp add: skipped_Cons)
  qed
qed

text \<open>
  Claim C4. When \<^verbatim>\<open>matchWord\<close> succeeds there is an exhaustion point \<open>k\<close>, and the
  unused letters are the letters scanned before \<open>k\<close> that were not in the remaining
  candidate multiset, followed by all the letters after \<open>k\<close>, in their original
  order. Matching CAT against TACO succeeds and leaves the letter O.
\<close>

theorem C4_unused_letters:
  "(check (matchWord w input) \<longrightarrow>
      (\<exists>k. exhausted_at w input k \<and>
           unused (matchWord w input) =
             Some (skipped w input k @ drop (Suc k) input))) \<and>
   matchWord (str ''CAT'') (str ''TACO'') = \<lparr>check = True, unused = Some (str ''O'')\<rparr>"
  using unused_matchLoop[of w input "[]"] by (simp add: matchWord_def str_def)

theorem C4_unused_letters_witness:
  "check (matchWord (str ''CAT'') (str ''TACO'')) \<and>
   (\<exists>k. exhausted_at (str ''CAT'') (str ''TACO'') k \<and>
        Some (str ''O'') =
          Some (skipped (str ''CAT'') (str ''TACO'') k @ drop (Suc k) (str ''TACO'')))"
  using C4_unused_letters[of "str ''CAT''" "str ''TACO''"]
  by (simp add: matchWord_def str_def)

section \<open>Scores\<close>

lemma scoreLetters_Num:
  "set cs \<subseteq> dom table \<Longrightarrow> parseInt (position bonus) = Some b \<Longrightarrow>
   scoreLetters table bonus cs i (Num a) =
     Num (a + (\<Sum>j<length cs. contribution table b (Suc (i + j)) (cs ! j)))"
proof (induction cs arbitrary: i a)
  case Nil
  then show ?case by simp
next
  case (Cons c cs)
  from Cons.prems obtain v where v: "table c = Some v" by auto
  have "scoreLetters table bonus (c # cs) i (Num a) =
        scoreLetters table bonus cs (Suc i) (Num (a + contribution table b (Suc i) c))"
    using v Cons.prems(2)
    by (auto simp: toNumber_def contribution_def letterValue_def mult.commute)
  also have "\<dots> = Num (a + contribution table b (Suc i) c +
                 (\<Sum>j<length cs. contribution table b (Suc (Suc i + j)) (cs ! j)))"
    using Cons.IH[of "Suc i"] Cons.prems by simp
  finally have E: "scoreLetters table bonus (c # cs) i (Num a) =
      Num (a + contribution table b (Suc i) c +
                 (\<Sum>j<length cs. contribution table b (Suc (Suc i + j)) (cs ! j)))" .
  show ?case
    unfolding E by (simp add: sum.lessThan_Suc_shift del: sum.lessThan_Suc)
qed

lemma bonusSum_lessThan:
  "bonusSum table b w = (\<Sum>j<length w. contribution table b (Suc j) (w ! j))"
  by (simp add: bonusSum_def contribution_def sum.atLeast1_atMost_eq cong: if_cong)

lemma scoreLetters_bonusSum:
  "set w \<subseteq> dom table \<Longrightarrow> parseInt (position bonus) = Some b \<Longrightarrow>
   scoreLetters table bonus w 0 (Num 0) = Num (bonusSum table b w)"
  by (simp add: scoreLetters_Num bonusSum_lessThan)

lemma bonusSum_beyond:
  "b \<le> 0 \<or> int (length w) < b \<Longrightarrow> bonusSum table b w = plainSum table w"
  unfolding bonusSum_def plainSum_def by (intro sum.cong) auto

lemma scoreLetters_NaN: "scoreLetters table bonus cs i NaN = NaN"
  by (induction cs arbitrary: i) simp_all

lemma scoreLetters_missing:
  "c \<in> set cs \<Longrightarrow> table c = None \<Longrightarrow> scoreLetters table bonus cs i acc = NaN"
proof (induction cs arbitrary: i acc)
  case Nil
  then show ?case by simp
next
  case (Cons x cs)
  show ?case
  proof (cases "x = c")
    case True
    have "jsadd acc NaN = NaN" by (cases acc) simp_all
    then show ?thesis
      using True Cons.prems(2) by (simp add: toNumber_def scoreLetters_NaN)
  next
    case False
    then show ?thesis using Cons by (simp add: Let_def)
  qed
qed

lemma parseInt_2: "parseInt (str ''2'') = Some 2"
  by (simp add: str_def parseInt_def isRadixDigit_def digitValue_def radixValue_def
      isWhiteSpace_def)

lemma parseInt_7: "parseInt (str ''7'') = Some 7"
  by (simp add: str_def parseInt_def isRadixDigit_def digitValue_def radixValue_def
      isWhiteSpace_def)

lemma parseInt_0: "parseInt (str ''0'') = Some 0"
  by (simp add: str_def parseInt_def isRadixDigit_def digitValue_def radixValue_def
      isWhiteSpace_def)

lemma bonusSum_CAT: "bonusSum exampleScore 2 (str ''CAT'') = 6"
  by (simp add: bonusSum_def letterValue_def exampleScore_def str_def
      atLeastAtMost_upt upt_rec)

lemma plainSum_CAT: "plainSum exampleScore (str ''CAT'') = 5"
  by (simp add: plainSum_def letterValue_def exampleScore_def str_def
      atLeastAtMost_upt upt_rec)

lemma exactSum_CAT: "exactSum exampleScore (str ''CAT'')"
  by (simp add: exactSum_def letterValue_def exampleScore_def str_def)

text \<open>
  Claim C3. When every letter of the matched words has a value in the table, the values
  of each word are within the range where doubles add exactly (doubled, they add up to at
  most \<open>2^53\<close> in absolute value), and the bonus text denotes the position \<open>b\<close>,
  \<^verbatim>\<open>scoreWords\<close> gives each word the sum over its 1-based positions of the letter
  values, the value at position \<open>b\<close> doubled; when \<open>b\<close> is beyond the length of
  the words the score is the plain sum, and no error is raised. With the table A:1, C:3,
  T:1 the word CAT and the bonus position 2 score 6.
\<close>

theorem C3_score_with_bonus:
  "((\<forall>m\<in>set ms. set (word m) \<subseteq> dom table \<and> exactSum table (word m)) \<and>
    parseInt (position bonus) = Some b \<longrightarrow>
      scoreWords table ms bonus =
        Inr (map (\<lambda>m. \<lparr>word = word m, unusedLetters = unusedLetters m,
                         score = Num (bonusSum table b (word m))\<rparr>) ms)) \<and>
   ((\<forall>m\<in>set ms. set (word m) \<subseteq> dom table \<and> exactSum table (word m) \<and>
               int (length (word m)) < b) \<and>
    parseInt (position bonus) = Some b \<longrightarrow>
      scoreWords table ms bonus =
        Inr (map (\<lambda>m. \<lparr>word = word m, unusedLetters = unusedLetters m,
                         score = Num (plainSum table (word m))\<rparr>) ms)) \<and>
   scoreWords exampleScore [\<lparr>word = str ''CAT'', unusedLetters = []\<rparr>]
       \<lparr>position = str ''2''\<rparr> =
     Inr [\<lparr>word = str ''CAT'', unusedLetters = [], score = Num 6\<rparr>]"
proof (intro conjI impI)
  assume "(\<forall>m\<in>set ms. set (word m) \<subseteq> dom table \<and> exactSum table (word m)) \<and>
    parseInt (position bonus) = Some b"
  then show "scoreWords table ms bonus =
        Inr (map (\<lambda>m. \<lparr>word = word m, unusedLetters = unusedLetters m,
                         score = Num (bonusSum table b (word m))\<rparr>) ms)"
    by (simp add: scoreWords_def scoreLetters_bonusSum)
next
  assume "(\<forall>m\<in>set ms. set (word m) \<subseteq> dom table \<and> exactSum table (word m) \<and>
               int (length (word m)) < b) \<and>
    parseInt (position bonus) = Some b"
  then show "scoreWords table ms bonus =
        Inr (map (\<lambda>m. \<lparr>word = word m, unusedLetters = unusedLetters m,
                         score = Num (plainSum table (word m))\<rparr>) ms)"
    by (simp add: scoreWords_def scoreLetters_bonusSum bonusSum_beyond)
next
  have "set (str ''CAT'') \<subseteq> dom exampleScore"
    by (simp add: str_def exampleScore_def)
  then show "scoreWords exampleScore [\<lparr>word = str ''CAT'', unusedLetters = []\<rparr>]
       \<lparr>position = str ''2''\<rparr> =
     Inr [\<lparr>word = str ''CAT'', unusedLetters = [], score = Num 6\<rparr>]"
    by (simp add: scoreWords_def scoreLetters_bonusSum[where b = 2] parseInt_2 bonusSum_CAT)
qed

theorem C3_score_with_bonus_witness:
  "set (str ''CAT'') \<subseteq> dom exampleScore \<and> exactSum exampleScore (str ''CAT'') \<and>
   parseInt (str ''2'') = Some 2 \<and> parseInt (str ''7'') = Some 7 \<and>
   int (length (str ''CAT'')) < 7 \<and>
   scoreWords exampleScore [\<lparr>word = str ''CAT'', unusedLetters = str ''O''\<rparr>]
       \<lparr>position = str ''2''\<rparr> =
     Inr [\<lparr>word = str ''CAT'', unusedLetters = str ''O'', score = Num 6\<rparr>] \<and>
   scoreWords exampleScore [\<lparr>word = str ''CAT'', unusedLetters = str ''O''\<rparr>]
       \<lparr>position = str ''7''\<rparr> =
     Inr [\<lparr>word = str ''CAT'', unusedLetters = str ''O'', score = Num 5\<rparr>]"
proof -
  have d: "set (str ''CAT'') \<subseteq> dom exampleScore"
    by (simp add: str_def exampleScore_def)
  have l: "int (length (str ''CAT'')) < 7" by (simp add: str_def)
  have x: "exactSum exampleScore (str ''CAT'')" by (rule exactSum_CAT)
  have a: "scoreWords exampleScore [\<lparr>word = str ''CAT'', unusedLetters = str ''O''\<rparr>]
       \<lparr>position = str ''2''\<rparr> =
     Inr [\<lparr>word = str ''CAT'', unusedLetters = str ''O'',
           score = Num (bonusSum exampleScore 2 (str ''CAT''))\<rparr>]"
    using C3_score_with_bonus[of "[\<lparr>word = str ''CAT'', unusedLetters = str ''O''\<rparr>]"
        exampleScore "\<lparr>position = str ''2''\<rparr>" 2, THEN conjunct1] d x
    by (simp add: parseInt_2)
  have b: "scoreWords exampleScore [\<lparr>word = str ''CAT'', unusedLetters = str ''O''\<rparr>]
       \<lparr>position = str ''7''\<rparr> =
     Inr [\<lparr>word = str ''CAT'', unusedLetters = str ''O'',
           score = Num (plainSum exampleScore (str ''CAT''))\<rparr>]"
    using C3_score_with_bonus[of "[\<lparr>word = str ''CAT'', unusedLetters = str ''O''\<rparr>]"
        exampleScore "\<lparr>position = str ''7''\<rparr>" 7, THEN conjunct2, THEN conjunct1] d l x
    by (simp add: parseInt_7)
  show ?thesis
    using d l x by (simp add: a b parseInt_2 parseInt_7 bonusSum_CAT plainSum_CAT)
qed

text \<open>
  Claim C7, as stated, fails: with the table A:1, C:3, T:1 the word CAX holds a letter
  without a value, and \<^verbatim>\<open>scoreWords\<close> returns normally, the score of the word being
  \<open>NaN\<close>.
\<close>

theorem C7_no_error_counterexample:
  "scoreWords exampleScore [\<lparr>word = str ''CAX'', unusedLetters = []\<rparr>]
       \<lparr>position = str ''2''\<rparr> =
     Inr [\<lparr>word = str ''CAX'', unusedLetters = [], score = NaN\<rparr>]"
  by (simp add: scoreWords_def exampleScore_def str_def toNumber_def parseInt_2[unfolded str_def])

text \<open>
  Claim C7, amended. \<^verbatim>\<open>scoreWords\<close> never raises an error; a matched word with a
  letter absent from the table is not scored with that letter counted as zero either:
  its score is \<open>NaN\<close>.
\<close>

theorem C7_missing_letter_scores_NaN:
  "\<exists>ss. scoreWords table ms bonus = Inr ss \<and> length ss = length ms \<and>
        (\<forall>i<length ms. \<not> set (word (ms ! i)) \<subseteq> dom table \<longrightarrow> score (ss ! i) = NaN)"
proof -
  have "scoreLetters table bonus (word (ms ! i)) 0 (Num 0) = NaN"
    if "\<not> set (word (ms ! i)) \<subseteq> dom table" for i
  proof -
    from that obtain c where "c \<in> set (word (ms ! i))" "table c = None"
      by (auto simp: dom_def)
    then show ?thesis by (rule scoreLetters_missing)
  qed
  then show ?thesis by (simp add: scoreWords_def)
qed

theorem C7_missing_letter_scores_NaN_witness:
  "\<not> set (str ''CAX'') \<subseteq> dom exampleScore \<and>
   (\<exists>ss. scoreWords exampleScore [\<lparr>word = str ''CAX'', unusedLetters = []\<rparr>]
            \<lparr>position = str ''2''\<rparr> = Inr ss \<and> length ss = 1 \<and> score (ss ! 0) = NaN)"
proof -
  have n: "\<not> set (str ''CAX'') \<subseteq> dom exampleScore"
    by (simp add: str_def exampleScore_def)
  show ?thesis
    using C7_missing_letter_scores_NaN[of exampleScore
        "[\<lparr>word = str ''CAX'', unusedLetters = []\<rparr>]" "\<lparr>position = str ''2''\<rparr>"] n
    by auto
qed

section \<open>Bonus position texts\<close>

lemma digit_not_space: "isDecimalDigit c \<Longrightarrow> \<not> isWhiteSpace c"
  by (auto simp: isDecimalDigit_def isWhiteSpace_def)

lemma digit_radix10: "isRadixDigit 10 c = isDecimalDigit c"
  by (auto simp: isRadixDigit_def digitValue_def isDecimalDigit_def)

lemma digits_dropWhile:
  "nonNegativeIntegerText s \<Longrightarrow> dropWhile isWhiteSpace s = s"
  by (cases s) (auto simp: nonNegativeIntegerText_def digit_not_space)

lemma digits_trimString:
  assumes "nonNegativeIntegerText s"
  shows "trimString s = s"
proof -
  have "nonNegativeIntegerText (rev s)"
    using assms by (simp add: nonNegativeIntegerText_def list_all_iff)
  then have "dropWhile isWhiteSpace (rev s) = rev s" by (rule digits_dropWhile)
  then show ?thesis using assms by (simp add: trimString_def digits_dropWhile)
qed

lemma digits_takeWhile:
  "nonNegativeIntegerText s \<Longrightarrow> takeWhile isDecimalDigit s = s \<and> dropWhile isDecimalDigit s = []"
  by (simp add: nonNegativeIntegerText_def list_all_iff)

lemma digits_numeric:
  assumes "nonNegativeIntegerText s"
  shows "\<not> isNaN s"
proof -
  obtain c cs where s: "s = c # cs" and c: "isDecimalDigit c"
    using assms by (cases s) (auto simp: nonNegativeIntegerText_def)
  have "c \<noteq> 43 \<and> c \<noteq> 45" using c by (auto simp: isDecimalDigit_def)
  moreover have "strUnsignedDecimalLiteral s"
    using digits_takeWhile[OF assms] s by (simp add: strUnsignedDecimalLiteral_def)
  ultimately have "strDecimalLiteral s" using s by (simp add: strDecimalLiteral_def)
  then show ?thesis
    by (simp add: isNaN_def isStringNumericLiteral_def digits_trimString[OF assms])
qed

lemma digits_parseInt:
  assumes "nonNegativeIntegerText s"
  shows "parseInt s = Some (int (radixValue 10 s))"
proof -
  obtain c cs where s: "s = c # cs" and c: "isDecimalDigit c"
    using assms by (cases s) (auto simp: nonNegativeIntegerText_def)
  have sg: "c \<noteq> 43 \<and> c \<noteq> 45" using c by (auto simp: isDecimalDigit_def)
  have c1: "(case s of c # _ \<Rightarrow> if c = 45 then - 1 else 1 | [] \<Rightarrow> (1::int)) = 1"
    using s sg by simp
  have c2: "(case s of c # cs \<Rightarrow> if c = 43 \<or> c = 45 then cs else s | [] \<Rightarrow> s) = s"
    using s sg by simp
  have "list_all isDecimalDigit (take 2 s)"
    using assms by (auto simp: nonNegativeIntegerText_def list_all_iff dest: in_set_takeD)
  then have nh: "(take 2 s = [48, 120] \<or> take 2 s = [48, 88]) = False"
    by (auto simp: isDecimalDigit_def)
  have tw: "takeWhile (isRadixDigit 10) s = s"
    using digits_takeWhile[OF assms] by (simp add: digit_radix10[abs_def])
  have d: "dropWhile isWhiteSpace s = s" by (rule digits_dropWhile[OF assms])
  have ne: "s \<noteq> []" using assms by (simp add: nonNegativeIntegerText_def)
  show ?thesis
    unfolding parseInt_def Let_def d c1 c2 nh by (simp add: tw ne)
qed

lemma digits_accepted:
  "nonNegativeIntegerText (removeWhitespaces t) \<Longrightarrow> fst (checkBonusPosition \<lparr>position = t\<rparr>)"
  by (simp add: checkBonusPosition_def digits_numeric digits_parseInt)

lemma parseInt_has_digit:
  assumes "parseInt s = Some n"
  shows "\<exists>c\<in>set s. isDecimalDigit c"
proof -
  define S where "S = dropWhile isWhiteSpace s"
  define S1 where "S1 = (case S of c # cs \<Rightarrow> if c = 43 \<or> c = 45 then cs else S | [] \<Rightarrow> S)"
  have "set S \<subseteq> set s"
    by (auto simp: S_def dest: set_dropWhileD)
  moreover have "set S1 \<subseteq> set S"
    by (cases S) (auto simp: S1_def)
  ultimately have sub1: "set S1 \<subseteq> set s" by blast
  show ?thesis
  proof (cases "take 2 S1 = [48, 120] \<or> take 2 S1 = [48, 88]")
    case True
    then have "48 \<in> set (take 2 S1)" by auto
    then have "48 \<in> set s" using sub1 by (auto dest: in_set_takeD)
    then show ?thesis by (auto simp: isDecimalDigit_def)
  next
    case False
    then have "takeWhile (isRadixDigit 10) S1 \<noteq> []"
      using assms unfolding parseInt_def S1_def S_def by (auto simp: Let_def split: if_splits)
    then obtain c where "c \<in> set (takeWhile (isRadixDigit 10) S1)"
      by (cases "takeWhile (isRadixDigit 10) S1") auto
    then have "c \<in> set S1" "isRadixDigit 10 c"
      by (auto dest: set_takeWhileD)
    then show ?thesis using sub1 by (auto simp: digit_radix10)
  qed
qed

lemma no_digit_rejected:
  assumes "\<forall>c\<in>set t. \<not> isDecimalDigit c"
  shows "\<not> fst (checkBonusPosition \<lparr>position = t\<rparr>)"
proof
  assume "fst (checkBonusPosition \<lparr>position = t\<rparr>)"
  then obtain n where "parseInt (removeWhitespaces t) = Some n"
    by (auto simp: checkBonusPosition_def split: option.splits)
  then obtain c where "c \<in> set (removeWhitespaces t)" "isDecimalDigit c"
    using parseInt_has_digit by blast
  then show False using assms by (auto simp: removeWhitespaces_def)
qed

lemma minus_parseInt:
  assumes "nonNegativeIntegerText ds"
  shows "parseInt (45 # ds) = Some (- int (radixValue 10 ds))"
proof -
  have "list_all isDecimalDigit (take 2 ds)"
    using assms by (auto simp: nonNegativeIntegerText_def list_all_iff dest: in_set_takeD)
  then have nh: "(take 2 ds = [48, 120] \<or> take 2 ds = [48, 88]) = False"
    by (auto simp: isDecimalDigit_def)
  have tw: "takeWhile (isRadixDigit 10) ds = ds"
    using digits_takeWhile[OF assms] by (simp add: digit_radix10[abs_def])
  have ne: "ds \<noteq> []" using assms by (simp add: nonNegativeIntegerText_def)
  have d: "dropWhile isWhiteSpace (45 # ds) = 45 # ds" by (simp add: isWhiteSpace_def)
  have c1: "(case 45 # ds of c # _ \<Rightarrow> if c = 45 then - 1 else 1 | [] \<Rightarrow> (1::int)) = - 1"
    by simp
  have c2: "(case 45 # ds of c # cs \<Rightarrow> if c = 43 \<or> c = 45 then cs else 45 # ds
             | [] \<Rightarrow> 45 # ds) = ds"
    by simp
  show ?thesis
    unfolding parseInt_def Let_def d c1 c2 nh by (simp add: tw ne)
qed

lemma negative_rejected:
  "removeWhitespaces t = 45 # ds \<Longrightarrow> nonNegativeIntegerText ds \<Longrightarrow> 0 < radixValue 10 ds \<Longrightarrow>
   \<not> fst (checkBonusPosition \<lparr>position = t\<rparr>)"
  by (simp add: checkBonusPosition_def minus_parseInt)

lemmas bonus_eval = checkBonusPosition_def removeWhitespaces_def str_def isNaN_def
  isStringNumericLiteral_def trimString_def isWhiteSpace_def strDecimalLiteral_def
  strUnsignedDecimalLiteral_def isDecimalDigit_def exponentPartOpt_def signedInteger_def
  decimalDigits_def nonDecimalIntegerLiteral_def parseInt_def isRadixDigit_def
  digitValue_def radixValue_def

lemma accepts_1_5: "fst (checkBonusPosition \<lparr>position = str ''1.5''\<rparr>)"
  by (simp add: bonus_eval)

lemma accepts_minus_0_5: "fst (checkBonusPosition \<lparr>position = str ''-0.5''\<rparr>)"
  by (simp add: bonus_eval)

lemma rejects_12abc:
  "\<not> fst (checkBonusPosition \<lparr>position = str ''12abc''\<rparr>) \<and>
   parseInt (removeWhitespaces (str ''12abc'')) = Some 12"
  by (simp add: bonus_eval)

text \<open>
  Claim C6, as stated, fails, however the text is parsed as an integer: the texts 1.5
  and -0.5 are not non-negative integers, and both are accepted; and the text 12abc,
  from which \<^verbatim>\<open>parseInt\<close> reads the non-negative integer 12, is rejected.
\<close>

theorem C6_accepts_non_integers_counterexample:
  "fst (checkBonusPosition \<lparr>position = str ''1.5''\<rparr>) \<and>
   \<not> nonNegativeIntegerText (removeWhitespaces (str ''1.5'')) \<and>
   fst (checkBonusPosition \<lparr>position = str ''-0.5''\<rparr>) \<and>
   \<not> nonNegativeIntegerText (removeWhitespaces (str ''-0.5'')) \<and>
   \<not> fst (checkBonusPosition \<lparr>position = str ''12abc''\<rparr>) \<and>
   parseInt (removeWhitespaces (str ''12abc'')) = Some 12"
  using accepts_1_5 accepts_minus_0_5 rejects_12abc
  by (simp add: nonNegativeIntegerText_def removeWhitespaces_def str_def isDecimalDigit_def)

text \<open>
  Claim C6, amended. \<^verbatim>\<open>checkBonusPosition\<close> removes the spaces of the text, keeps the
  result in \<^verbatim>\<open>bonus.position\<close>, and answers with a boolean, never an exception. Every
  non-negative decimal integer is accepted; the accepted texts are those that
  \<^verbatim>\<open>Number\<close> reads as a number and from which \<^verbatim>\<open>parseInt\<close> reads an integer that
  is at least zero; a text without a digit (the empty text, letters) and a negative
  integer are rejected. Numeric texts that are not integers are accepted as well, by
  their leading integer: 1.5 is accepted and read as position 1.
\<close>

theorem C6_bonus_text_validation:
  "(nonNegativeIntegerText (removeWhitespaces t) \<longrightarrow>
      fst (checkBonusPosition \<lparr>position = t\<rparr>)) \<and>
   fst (checkBonusPosition \<lparr>position = t\<rparr>) =
     (\<not> isNaN (removeWhitespaces t) \<and>
      (\<exists>n\<ge>0. parseInt (removeWhitespaces t) = Some n)) \<and>
   ((\<forall>c\<in>set t. \<not> isDecimalDigit c) \<longrightarrow> \<not> fst (checkBonusPosition \<lparr>position = t\<rparr>)) \<and>
   (removeWhitespaces t = 45 # ds \<and> nonNegativeIntegerText ds \<and> 0 < radixValue 10 ds \<longrightarrow>
      \<not> fst (checkBonusPosition \<lparr>position = t\<rparr>)) \<and>
   snd (checkBonusPosition \<lparr>position = t\<rparr>) = \<lparr>position = removeWhitespaces t\<rparr> \<and>
   fst (checkBonusPosition \<lparr>position = str ''1.5''\<rparr>) \<and>
   parseInt (str ''1.5'') = Some 1"
proof (intro conjI impI)
  assume "nonNegativeIntegerText (removeWhitespaces t)"
  then show "fst (checkBonusPosition \<lparr>position = t\<rparr>)" by (rule digits_accepted)
next
  show "fst (checkBonusPosition \<lparr>position = t\<rparr>) =
     (\<not> isNaN (removeWhitespaces t) \<and>
      (\<exists>n\<ge>0. parseInt (removeWhitespaces t) = Some n))"
    by (auto simp: checkBonusPosition_def split: option.splits)
next
  assume "\<forall>c\<in>set t. \<not> isDecimalDigit c"
  then show "\<not> fst (checkBonusPosition \<lparr>position = t\<rparr>)" by (rule no_digit_rejected)
next
  assume "removeWhitespaces t = 45 # ds \<and> nonNegativeIntegerText ds \<and> 0 < radixValue 10 ds"
  then show "\<not> fst (checkBonusPosition \<lparr>position = t\<rparr>)" by (simp add: negative_rejected)
next
  show "snd (checkBonusPosition \<lparr>position = t\<rparr>) = \<lparr>position = removeWhitespaces t\<rparr>"
    by (simp add: checkBonusPosition_def)
next
  show "fst (checkBonusPosition \<lparr>position = str ''1.5''\<rparr>)" by (rule accepts_1_5)
next
  show "parseInt (str ''1.5'') = Some 1"
    by (simp add: str_def parseInt_def isRadixDigit_def digitValue_def radixValue_def
        isWhiteSpace_def)
qed

theorem C6_bonus_text_validation_witness:
  "nonNegativeIntegerText (removeWhitespaces (str '' 12 '')) \<and>
   fst (checkBonusPosition \<lparr>position = str '' 12 ''\<rparr>) \<and>
   parseInt (removeWhitespaces (str '' 12 '')) = Some 12 \<and>
   \<not> fst (checkBonusPosition \<lparr>position = str ''abc''\<rparr>) \<and>
   removeWhitespaces (str ''- 3'') = 45 # str ''3'' \<and> 0 < radixValue 10 (str ''3'') \<and>
   \<not> fst (checkBonusPosition \<lparr>position = str ''- 3''\<rparr>)"
proof -
  have a: "nonNegativeIntegerText (removeWhitespaces (str '' 12 ''))"
    by (simp add: nonNegativeIntegerText_def removeWhitespaces_def str_def isDecimalDigit_def)
  have b: "\<forall>c\<in>set (str ''abc''). \<not> isDecimalDigit c"
    by (simp add: str_def isDecimalDigit_def)
  have c: "removeWhitespaces (str ''- 3'') = 45 # str ''3'' \<and> nonNegativeIntegerText (str ''3'') \<and>
           0 < radixValue 10 (str ''3'')"
    by (simp add: nonNegativeIntegerText_def removeWhitespaces_def str_def isDecimalDigit_def
        radixValue_def digitValue_def)
  have p: "parseInt (removeWhitespaces (str '' 12 '')) = Some 12"
    by (simp add: removeWhitespaces_def str_def parseInt_def isRadixDigit_def digitValue_def
        radixValue_def isWhiteSpace_def)
  show ?thesis
    using C6_bonus_text_validation[of "str '' 12 ''" "[]", THEN conjunct1] a
      C6_bonus_text_validation[of "str ''abc''" "[]", THEN conjunct2, THEN conjunct2, THEN conjunct1] b
      C6_bonus_text_validation[of "str ''- 3''" "str ''3''", THEN conjunct2, THEN conjunct2,
        THEN conjunct2, THEN conjunct1] c p
    by simp
qed

text \<open>
  Claim C10. The bonus text 0 is accepted, and with it \<^verbatim>\<open>scoreWords\<close> gives every
  word the plain sum of its letter values with nothing doubled, since positions are
  compared from 1; this for words whose letters all have a value in the table, the values
  being within the range where doubles add exactly.
\<close>

theorem C10_zero_is_no_bonus:
  "fst (checkBonusPosition \<lparr>position = str ''0''\<rparr>) \<and>
   ((\<forall>m\<in>set ms. set (word m) \<subseteq> dom table \<and> exactSum table (word m)) \<longrightarrow>
      scoreWords table ms (snd (checkBonusPosition \<lparr>position = str ''0''\<rparr>)) =
        Inr (map (\<lambda>m. \<lparr>word = word m, unusedLetters = unusedLetters m,
                         score = Num (plainSum table (word m))\<rparr>) ms))"
proof (intro conjI impI)
  show "fst (checkBonusPosition \<lparr>position = str ''0''\<rparr>)" by (simp add: bonus_eval)
next
  assume a: "\<forall>m\<in>set ms. set (word m) \<subseteq> dom table \<and> exactSum table (word m)"
  have s: "snd (checkBonusPosition \<lparr>position = str ''0''\<rparr>) = \<lparr>position = str ''0''\<rparr>"
    by (simp add: checkBonusPosition_def removeWhitespaces_def str_def)
  have "scoreLetters table \<lparr>position = str ''0''\<rparr> (word m) 0 (Num 0) =
        Num (plainSum table (word m))" if "m \<in> set ms" for m
  proof -
    have "set (word m) \<subseteq> dom table" using a that by blast
    then have "scoreLetters table \<lparr>position = str ''0''\<rparr> (word m) 0 (Num 0) =
               Num (bonusSum table 0 (word m))"
      by (intro scoreLetters_bonusSum) (simp_all add: parseInt_0)
    then show ?thesis by (simp add: bonusSum_beyond)
  qed
  then show "scoreWords table ms (snd (checkBonusPosition \<lparr>position = str ''0''\<rparr>)) =
        Inr (map (\<lambda>m. \<lparr>word = word m, unusedLetters = unusedLetters m,
                         score = Num (plainSum table (word m))\<rparr>) ms)"
    unfolding s by (simp add: scoreWords_def)
qed

theorem C10_zero_is_no_bonus_witness:
  "set (str ''CAT'') \<subseteq> dom exampleScore \<and> exactSum exampleScore (str ''CAT'') \<and>
   scoreWords exampleScore [\<lparr>word = str ''CAT'', unusedLetters = []\<rparr>]
       (snd (checkBonusPosition \<lparr>position = str ''0''\<rparr>)) =
     Inr [\<lparr>word = str ''CAT'', unusedLetters = [], score = Num 5\<rparr>]"
proof -
  have d: "set (str ''CAT'') \<subseteq> dom exampleScore"
    by (simp add: str_def exampleScore_def)
  have x: "exactSum exampleScore (str ''CAT'')" by (rule exactSum_CAT)
  show ?thesis
    using C10_zero_is_no_bonus[where table = exampleScore
          and ms = "[\<lparr>word = str ''CAT'', unusedLetters = []\<rparr>]", THEN conjunct2] d x
    by (simp add: plainSum_CAT)
qed

section \<open>Ranking\<close>

lemma insertSorted_insort_key:
  "(\<forall>y\<in>set ys. (sortValue (compare x y) \<le> 0) = (f x \<le> f y)) \<Longrightarrow>
   insertSorted compare x ys = insort_key f x ys"
  by (induction ys) simp_all

lemma js_sort_sort_key:
  "(\<forall>x\<in>set xs. \<forall>y\<in>set xs. (sortValue (compare x y) \<le> 0) = (f x \<le> f y)) \<Longrightarrow>
   js_sort compare xs = sort_key f xs"
proof (induction xs)
  case Nil
  then show ?case by (simp add: js_sort_def)
next
  case (Cons x xs)
  have "js_sort compare (x # xs) = insertSorted compare x (js_sort compare xs)"
    by (simp add: js_sort_def)
  also have "\<dots> = insertSorted compare x (sort_key f xs)"
    using Cons by simp
  also have "\<dots> = insort_key f x (sort_key f xs)"
    using Cons.prems by (intro insertSorted_insort_key) simp
  finally show ?case by simp
qed

lemma sorted_takeWhile_filter:
  "sorted (map f zs) \<Longrightarrow> \<forall>z\<in>set zs. k \<le> f z \<Longrightarrow>
   takeWhile (\<lambda>x. f x = k) zs = filter (\<lambda>x. f x = k) zs"
proof (induction zs)
  case Nil
  then show ?case by simp
next
  case (Cons z zs)
  show ?case
  proof (cases "f z = k")
    case True
    then show ?thesis using Cons by simp
  next
    case False
    then have "\<forall>y\<in>set zs. f y \<noteq> k" using Cons.prems by fastforce
    then show ?thesis using False by (simp add: filter_empty_conv)
  qed
qed

lemma least_of_sorted:
  assumes "xs \<noteq> []"
  shows "hd (sort_key f xs) \<in> set xs \<and> (\<forall>y\<in>set xs. f (hd (sort_key f xs)) \<le> f y)"
proof -
  obtain h t where ht: "sort_key f xs = h # t"
    using assms by (cases "sort_key f xs") (auto dest: arg_cong[where f = length])
  have "sorted (map f (h # t))" using sorted_sort_key[of f xs] ht by simp
  then have "\<forall>y\<in>set (h # t). f h \<le> f y" by auto
  moreover have "set (h # t) = set xs" using set_sort[of f xs] ht by simp
  ultimately show ?thesis using ht by auto
qed

lemma cut_is_keep_least:
  assumes "xs \<noteq> []"
  shows "takeWhile (\<lambda>x. f x = f (hd (sort_key f xs))) (sort_key f xs) = keep_least f xs"
    and "filter (\<lambda>x. f x = f (hd (sort_key f xs))) (sort_key f xs) = keep_least f xs"
proof -
  let ?k = "f (hd (sort_key f xs))"
  have l: "hd (sort_key f xs) \<in> set xs" "\<forall>y\<in>set xs. ?k \<le> f y"
    using least_of_sorted[OF assms, of f] by auto
  have "filter (\<lambda>x. f x = ?k) (sort_key f xs) = filter (\<lambda>x. f x = ?k) xs"
    by (rule sort_key_stable)
  also have "\<dots> = keep_least f xs"
    unfolding keep_least_def using l by (intro filter_cong) (auto intro: antisym)
  finally show f: "filter (\<lambda>x. f x = ?k) (sort_key f xs) = keep_least f xs" .
  have "takeWhile (\<lambda>x. f x = ?k) (sort_key f xs) = filter (\<lambda>x. f x = ?k) (sort_key f xs)"
    using l by (intro sorted_takeWhile_filter) simp_all
  then show "takeWhile (\<lambda>x. f x = ?k) (sort_key f xs) = keep_least f xs"
    using f by simp
qed

lemma keep_least_nonempty: "xs \<noteq> [] \<Longrightarrow> keep_least f xs \<noteq> []"
  using least_of_sorted[of xs f] by (auto simp: keep_least_def filter_empty_conv)

lemma set_keep_least: "set (keep_least f xs) = {x \<in> set xs. \<forall>y\<in>set xs. f x \<le> f y}"
  by (simp add: keep_least_def)

lemma numeric_cases:
  "v \<noteq> NaN \<Longrightarrow> v = Num (numOf v)"
  by (cases v) (simp_all add: numOf_def)

lemma sortWordsByScore_sort_key:
  assumes "\<forall>c\<in>set cs. score c \<noteq> NaN"
  shows "sortWordsByScore cs = sort_key byScore cs"
    and "sortWordsByScore_part_000 cs = sort_key byScore cs"
proof -
  have n: "\<And>c. c \<in> set cs \<Longrightarrow> score c = Num (numOf (score c))"
    using assms by (simp add: numeric_cases)
  show "sortWordsByScore cs = sort_key byScore cs"
    unfolding sortWordsByScore_def
  proof (rule js_sort_sort_key, intro ballI)
    fix x y assume "x \<in> set cs" "y \<in> set cs"
    then have "jssub (score y) (score x) = Num (numOf (score y) - numOf (score x))"
      using n[of x] n[of y] by (metis jssub.simps(1))
    then show "(sortValue (jssub (score y) (score x)) \<le> 0) = (byScore x \<le> byScore y)"
      by (simp add: sortValue_def byScore_def)
  qed
  show "sortWordsByScore_part_000 cs = sort_key byScore cs"
    unfolding sortWordsByScore_part_000_def
  proof (rule js_sort_sort_key, intro ballI)
    fix x y assume "x \<in> set cs" "y \<in> set cs"
    then have "jsless (score x) (score y) = (numOf (score x) < numOf (score y))"
      "jsless (score y) (score x) = (numOf (score y) < numOf (score x))"
      using n[of x] n[of y] by (metis jsless.simps(1))+
    then show "(sortValue (if jsless (score x) (score y) then Num 1
                     else if jsless (score y) (score x) then Num (- 1) else Num 0) \<le> 0) =
          (byScore x \<le> byScore y)"
      by (auto simp: sortValue_def byScore_def)
  qed
qed

lemma sortWordsByLength_sort_key:
  "sortWordsByLength cs = sort_key byLength cs"
  "sortWordsByLength_part_000 cs = sort_key byLength cs"
  unfolding sortWordsByLength_def sortWordsByLength_part_000_def
  by (rule js_sort_sort_key; auto simp: sortValue_def byLength_def)+

lemma sortWordsAlphabetically_sort_key:
  "sortWordsAlphabetically cs = sort_key word cs"
  unfolding sortWordsAlphabetically_def
  by (rule js_sort_sort_key) (auto simp: sortValue_def localeCompare_def)

lemma removeLowerScores_keep_least:
  assumes "cs \<noteq> []" "\<forall>c\<in>set cs. score c \<noteq> NaN"
  shows "removeLowerScores (sort_key byScore cs) = Inr (keep_least byScore cs)"
    and "filterHighestScores (sort_key byScore cs) = Inr (keep_least byScore cs)"
proof -
  let ?ys = "sort_key byScore cs"
  obtain h t where ht: "?ys = h # t"
    using assms(1) by (cases ?ys) (auto dest: arg_cong[where f = length])
  have n: "\<And>c. c \<in> set ?ys \<Longrightarrow> score c = Num (numOf (score c))"
    using assms(2) by (simp add: numeric_cases)
  have e: "strictEq (score m) (score h) = (byScore m = byScore (hd ?ys))" if "m \<in> set ?ys" for m
  proof -
    have "h \<in> set ?ys" using ht by simp
    then have "strictEq (score m) (score h) = (numOf (score m) = numOf (score h))"
      using n[of m] n[of h] that by (metis strictEq.simps(1))
    then show ?thesis using ht by (simp add: byScore_def)
  qed
  have "takeWhile (\<lambda>m. strictEq (score m) (score h)) ?ys =
        takeWhile (\<lambda>m. byScore m = byScore (hd ?ys)) ?ys"
    by (rule takeWhile_cong) (simp_all add: e)
  then show "removeLowerScores ?ys = Inr (keep_least byScore cs)"
    using ht cut_is_keep_least(1)[OF assms(1), of byScore]
    by (simp add: removeLowerScores_def)
  have "filter (\<lambda>m. strictEq (score m) (score h)) ?ys =
        filter (\<lambda>m. byScore m = byScore (hd ?ys)) ?ys"
    by (rule filter_cong) (simp_all add: e)
  then show "filterHighestScores ?ys = Inr (keep_least byScore cs)"
    using ht cut_is_keep_least(2)[OF assms(1), of byScore]
    by (simp add: filterHighestScores_def)
qed

lemma removeHigherLengths_keep_least:
  assumes "cs \<noteq> []"
  shows "removeHigherLengths (sort_key byLength cs) = Inr (keep_least byLength cs)"
    and "filterLowestLengths (sort_key byLength cs) = Inr (keep_least byLength cs)"
proof -
  let ?ys = "sort_key byLength cs"
  obtain h t where ht: "?ys = h # t"
    using assms(1) by (cases ?ys) (auto dest: arg_cong[where f = length])
  have le: "\<forall>y\<in>set ?ys. byLength (hd ?ys) \<le> byLength y"
    using least_of_sorted[OF assms, of byLength] by simp
  have "takeWhile (\<lambda>m. \<not> length (word m) > length (word h)) ?ys =
        takeWhile (\<lambda>m. byLength m = byLength (hd ?ys)) ?ys"
    using le ht by (intro takeWhile_cong) (auto simp: byLength_def)
  then show "removeHigherLengths ?ys = Inr (keep_least byLength cs)"
    using ht cut_is_keep_least(1)[OF assms(1), of byLength]
    by (simp add: removeHigherLengths_def)
  have "filter (\<lambda>m. length (word m) = length (word h)) ?ys =
        filter (\<lambda>m. byLength m = byLength (hd ?ys)) ?ys"
    using ht by (intro filter_cong) (auto simp: byLength_def)
  then show "filterLowestLengths ?ys = Inr (keep_least byLength cs)"
    using ht cut_is_keep_least(2)[OF assms(1), of byLength]
    by (simp add: filterLowestLengths_def)
qed

lemma rankWords_finalists:
  assumes "cs \<noteq> []" "\<forall>c\<in>set cs. score c \<noteq> NaN"
  shows "rankWords cs = Inr (finalists cs)"
    and "rankWords_part_000 cs = Inr (shift (finalists cs))"
proof -
  let ?H = "keep_least byScore cs"
  have H: "?H \<noteq> []" by (rule keep_least_nonempty[OF assms(1)])
  show "rankWords cs = Inr (finalists cs)"
    unfolding rankWords_def finalists_def
    by (simp add: sortWordsByScore_sort_key[OF assms(2)] removeLowerScores_keep_least[OF assms]
        sortWordsByLength_sort_key removeHigherLengths_keep_least[OF H]
        sortWordsAlphabetically_sort_key Let_def)
  have t: "shift (take (Suc 0) xs) = shift xs" for xs :: "scored list"
    by (cases xs) (simp_all add: shift_def)
  show "rankWords_part_000 cs = Inr (shift (finalists cs))"
    unfolding rankWords_part_000_def finalists_def
    by (simp add: sortWordsByScore_sort_key[OF assms(2)] removeLowerScores_keep_least[OF assms]
        sortWordsByLength_sort_key removeHigherLengths_keep_least[OF H]
        sortWordsAlphabetically_sort_key Let_def t)
qed

lemma finalists_best:
  assumes "cs \<noteq> []" "\<forall>c\<in>set cs. score c \<noteq> NaN"
  shows "\<exists>w rest. finalists cs = w # rest \<and> best cs w"
proof -
  let ?H = "keep_least byScore cs"
  let ?S = "keep_least byLength ?H"
  have n: "\<And>c. c \<in> set cs \<Longrightarrow> score c = Num (numOf (score c))"
    using assms(2) by (simp add: numeric_cases)
  have H: "?H \<noteq> []" by (rule keep_least_nonempty[OF assms(1)])
  have S: "?S \<noteq> []" by (rule keep_least_nonempty[OF H])
  have inH: "c \<in> set ?H" if "c \<in> set cs" "h \<in> set ?H" "score c = score h" for c h
    using that by (auto simp: set_keep_least byScore_def)
  have inS: "c \<in> set ?S" if "c \<in> set ?H" "s \<in> set ?S" "length (word c) = length (word s)" for c s
    using that by (auto simp: set_keep_least byLength_def)
  have topH: "w \<in> set cs \<and> (\<forall>c\<in>set cs. scoreLe (score c) (score w))" if "w \<in> set ?H" for w
  proof -
    have w: "w \<in> set cs" "\<forall>c\<in>set cs. numOf (score c) \<le> numOf (score w)"
      using that by (auto simp: set_keep_least byScore_def)
    have "scoreLe (score c) (score w)" if "c \<in> set cs" for c
      using n[OF that] n[OF w(1)] w(2) that by (metis scoreLe.simps(1))
    then show ?thesis using w(1) by simp
  qed
  have shortS: "w \<in> set ?H \<and> (\<forall>c\<in>set ?H. length (word w) \<le> length (word c))" if "w \<in> set ?S" for w
    using that by (auto simp: set_keep_least[of byLength] byLength_def)
  show ?thesis
  proof (cases "length ?H > 1")
    case False
    then obtain w where w: "?H = [w]"
      using H by (cases ?H) (auto simp: Suc_lessI)
    have only: "c = w" if "c \<in> set cs" "score c = score w" for c
      using inH[OF that(1) _ that(2)] w by simp
    have "best cs w"
      unfolding best_def using topH[of w] w only by auto
    then show ?thesis using False w by (simp add: finalists_def)
  next
    case True
    show ?thesis
    proof (cases "length ?S > 1")
      case False
      then obtain w where w: "?S = [w]"
        using S by (cases ?S) (auto simp: Suc_lessI)
      have wS: "w \<in> set ?S" using w by simp
      have wH: "w \<in> set ?H" using shortS[OF wS] by simp
      have only: "c = w" if "c \<in> set cs" "score c = score w" "length (word c) = length (word w)" for c
        using inS[OF inH[OF that(1) wH that(2)] wS that(3)] w by simp
      have "best cs w"
        unfolding best_def using topH[OF wH] shortS[OF wS] inH[OF _ wH] only by auto
      then show ?thesis using True False w by (simp add: finalists_def Let_def)
    next
      case long: True
      obtain w rest where w: "sort_key word ?S = w # rest"
        using S by (cases "sort_key word ?S") (auto dest: arg_cong[where f = length])
      have l: "w \<in> set ?S" "\<forall>y\<in>set ?S. word w \<le> word y"
        using least_of_sorted[OF S, of word] w by auto
      have wH: "w \<in> set ?H" using shortS[OF l(1)] by simp
      have "best cs w"
        unfolding best_def
        using topH[OF wH] shortS[OF l(1)] inH[OF _ wH] inS[OF _ l(1)] l(2) by auto
      then show ?thesis using True long w by (simp add: finalists_def Let_def)
    qed
  qed
qed

lemma best_unique:
  assumes "best cs w" "best cs w'"
  shows "word w = word w' \<and> score w = score w'"
proof -
  have m: "w \<in> set cs" "w' \<in> set cs" using assms by (auto simp: best_def)
  have "scoreLe (score w) (score w')" "scoreLe (score w') (score w)"
    using assms m by (auto simp: best_def)
  then have s: "score w = score w'"
    by (cases "score w"; cases "score w'") auto
  have "length (word w) \<le> length (word w')" "length (word w') \<le> length (word w)"
    using assms m s by (auto simp: best_def)
  then have l: "length (word w) = length (word w')" by simp
  have "word w \<le> word w'" "word w' \<le> word w"
    using assms m s l by (auto simp: best_def)
  then show ?thesis using s by simp
qed

lemmas rank_eval = rankWords_def removeLowerScores_def removeHigherLengths_def
  sortWordsByScore_def sortWordsByLength_def sortWordsAlphabetically_def js_sort_def
  candidate_def str_def sortValue_def localeCompare_def

text \<open>
  Claim C2. For a non-empty sequence of candidates whose scores are numbers and whose
  words are canonical (made of the capital letters A to Z), the ranking of both variants selects the same single winner: the in-place variant leaves it first
  in the array, where the caller reads it, and the single-argument variant returns it.
  The winner has the maximal score, among the candidates of that score the minimal word
  length, and among those the lexicographically least word; any candidate with these
  properties has the winner's word and score. From AB, CD and E, all of score 5, the
  winner is E.
\<close>

theorem C2_rank_selects_best:
  "(cs \<noteq> [] \<and> (\<forall>c\<in>set cs. score c \<noteq> NaN \<and> canonicalWord (word c)) \<longrightarrow>
      (\<exists>w rest. rankWords cs = Inr (w # rest) \<and> rankWords_part_000 cs = Inr (Some w) \<and>
                 best cs w \<and>
                 (\<forall>w'. best cs w' \<longrightarrow> word w' = word w \<and> score w' = score w))) \<and>
   rankWords [candidate ''AB'' 5, candidate ''CD'' 5, candidate ''E'' 5] =
     Inr [candidate ''E'' 5]"
proof (intro conjI impI)
  assume "cs \<noteq> [] \<and> (\<forall>c\<in>set cs. score c \<noteq> NaN \<and> canonicalWord (word c))"
  then have a: "cs \<noteq> [] \<and> (\<forall>c\<in>set cs. score c \<noteq> NaN)" by blast
  then obtain w rest where w: "finalists cs = w # rest" "best cs w"
    using finalists_best[of cs] by blast
  have "rankWords cs = Inr (w # rest)" "rankWords_part_000 cs = Inr (Some w)"
    using a w(1) rankWords_finalists[of cs] by (simp_all add: shift_def)
  moreover have "\<forall>w'. best cs w' \<longrightarrow> word w' = word w \<and> score w' = score w"
    using best_unique[OF _ w(2)] by blast
  ultimately show "\<exists>w rest. rankWords cs = Inr (w # rest) \<and>
      rankWords_part_000 cs = Inr (Some w) \<and> best cs w \<and>
      (\<forall>w'. best cs w' \<longrightarrow> word w' = word w \<and> score w' = score w)"
    using w(2) by blast
next
  show "rankWords [candidate ''AB'' 5, candidate ''CD'' 5, candidate ''E'' 5] =
     Inr [candidate ''E'' 5]"
    by (simp add: rank_eval)
qed

theorem C2_rank_selects_best_witness:
  "[candidate ''AB'' 5, candidate ''CD'' 5, candidate ''E'' 5] \<noteq> [] \<and>
   rankWords [candidate ''AB'' 5, candidate ''CD'' 5, candidate ''E'' 5] =
     Inr [candidate ''E'' 5] \<and>
   rankWords_part_000 [candidate ''AB'' 5, candidate ''CD'' 5, candidate ''E'' 5] =
     Inr (Some (candidate ''E'' 5)) \<and>
   best [candidate ''AB'' 5, candidate ''CD'' 5, candidate ''E'' 5] (candidate ''E'' 5) \<and>
   canonicalWord (str ''AB'') \<and> canonicalWord (str ''CD'') \<and> canonicalWord (str ''E'')"
proof -
  have n: "\<forall>c\<in>set [candidate ''AB'' 5, candidate ''CD'' 5, candidate ''E'' 5].
             score c \<noteq> NaN \<and> canonicalWord (word c)"
    by (simp add: candidate_def canonicalWord_def str_def)
  have r: "rankWords [candidate ''AB'' 5, candidate ''CD'' 5, candidate ''E'' 5] =
     Inr [candidate ''E'' 5]"
    by (simp add: rank_eval)
  from C2_rank_selects_best[of "[candidate ''AB'' 5, candidate ''CD'' 5, candidate ''E'' 5]",
        THEN conjunct1] n
  obtain w rest where w:
    "rankWords [candidate ''AB'' 5, candidate ''CD'' 5, candidate ''E'' 5] = Inr (w # rest)"
    "rankWords_part_000 [candidate ''AB'' 5, candidate ''CD'' 5, candidate ''E'' 5] = Inr (Some w)"
    "best [candidate ''AB'' 5, candidate ''CD'' 5, candidate ''E'' 5] w"
    by blast
  have c: "canonicalWord (str ''AB'') \<and> canonicalWord (str ''CD'') \<and> canonicalWord (str ''E'')"
    by (simp add: canonicalWord_def str_def)
  have "w = candidate ''E'' 5" using w(1) r by simp
  then show ?thesis using w r c by simp
qed

section \<open>Order of the dictionary\<close>










lemmas format_eval = formatWord_def removeAccentuation_def uppercase_def toUpperCaseChar_def
  removeSpecialCharacters_def isLetter_def removeNumbers_def isDecimalDigit_def
  removeWhitespaces_def replaceFirst_def exampleAccentuation_def





section \<open>The two variants of the normalizer\<close>

lemma getSubstitution_plain:
  "36 \<notin> set v \<Longrightarrow> getSubstitution m pre post v = v"
  by (induction m pre post v rule: getSubstitution.induct) auto

lemma replaceFirst_at:
  assumes "c \<notin> set pre" "36 \<notin> set v"
  shows "replaceFirst c v (pre @ c # post) = pre @ v @ post"
proof -
  have n: "\<forall>x\<in>set pre. x \<noteq> c" using assms(1) by auto
  have t: "takeWhile (\<lambda>x. x \<noteq> c) (pre @ c # post) = pre"
    using n by simp
  have d: "dropWhile (\<lambda>x. x \<noteq> c) (pre @ c # post) = c # post"
    using n by simp
  show ?thesis
    unfolding replaceFirst_def t d by (simp add: getSubstitution_plain[OF assms(2)])
qed

lemma removeAccentuation_loop:
  assumes "\<forall>k v. acc k = Some v \<longrightarrow> 36 \<notin> set v \<and> (\<forall>x\<in>set v. acc x = None)"
    and "\<forall>x\<in>set pre. acc x = None"
  shows "foldl (\<lambda>current letter.
              case acc letter of
                Some v \<Rightarrow> replaceFirst letter v current
              | None \<Rightarrow> current) (pre @ rest) rest =
         pre @ concat (map (foldChar acc) rest)"
  using assms(2)
proof (induction rest arbitrary: pre)
  case Nil
  then show ?case by simp
next
  case (Cons c rest)
  show ?case
  proof (cases "acc c")
    case None
    have "\<forall>x\<in>set (pre @ [c]). acc x = None" using Cons.prems None by simp
    from Cons.IH[OF this] show ?thesis using None by (simp add: foldChar_def)
  next
    case (Some v)
    have c: "c \<notin> set pre" using Cons.prems Some by auto
    have v: "36 \<notin> set v" "\<forall>x\<in>set v. acc x = None" using assms(1) Some by auto
    have "\<forall>x\<in>set (pre @ v). acc x = None" using Cons.prems v(2) by auto
    from Cons.IH[OF this] show ?thesis
      using Some by (simp add: foldChar_def replaceFirst_at[OF c v(1)])
  qed
qed

lemma removeAccentuation_concat:
  assumes "\<forall>k v. acc k = Some v \<longrightarrow> 36 \<notin> set v \<and> (\<forall>x\<in>set v. acc x = None)"
  shows "removeAccentuation acc s = concat (map (foldChar acc) s)"
  using removeAccentuation_loop[OF assms, of "[]" s] by (simp add: removeAccentuation_def)

lemma foldingTable_values:
  assumes "foldingTable acc"
  shows "\<forall>k v. acc k = Some v \<longrightarrow> 36 \<notin> set v \<and> (\<forall>x\<in>set v. acc x = None)"
proof (intro allI impI)
  fix k v assume kv: "acc k = Some v"
  then have r: "\<forall>x\<in>set v. 65 \<le> x \<and> x \<le> 90" using assms by (auto simp: foldingTable_def)
  have "acc x = None" if "x \<in> set v" for x
  proof (cases "acc x")
    case (Some u)
    then have "128 \<le> x" using assms by (auto simp: foldingTable_def)
    then show ?thesis using r that by auto
  qed simp
  moreover have "36 \<notin> set v" using r by auto
  ultimately show "36 \<notin> set v \<and> (\<forall>x\<in>set v. acc x = None)" by simp
qed

lemma filter_concat_map: "filter P (concat (map f xs)) = concat (map (\<lambda>x. filter P (f x)) xs)"
  by (induction xs) simp_all

lemma map_concat_map: "concat (map g (concat (map f xs))) = concat (map (\<lambda>x. concat (map g (f x))) xs)"
  by (induction xs) simp_all

lemma letters_only:
  "removeSpecialCharacters (removeNumbers (removeWhitespaces s)) = filter isLetter s"
proof -
  have "isLetter c \<Longrightarrow> \<not> isDecimalDigit c \<and> c \<noteq> 32" for c
    by (auto simp: isLetter_def isDecimalDigit_def)
  then have "filter (\<lambda>x. x \<noteq> 32 \<and> \<not> isDecimalDigit x \<and> isLetter x) s = filter isLetter s"
    by (intro filter_cong) auto
  then show ?thesis
    by (simp add: removeSpecialCharacters_def removeNumbers_def removeWhitespaces_def)
qed

lemma formatWord_canonical:
  assumes "foldingTable acc"
  shows "formatWord acc s = concat (map (canonical acc) s)"
proof -
  have "formatWord acc s =
        concat (map (foldChar acc) (concat (map toUpperCaseChar (filter isLetter s))))"
    by (simp add: formatWord_def removeAccentuation_concat[OF foldingTable_values[OF assms]]
        uppercase_def letters_only)
  also have "\<dots> = concat (map (canonical acc) s)"
    by (induction s) (simp_all add: canonical_def)
  finally show ?thesis .
qed

lemma part_000_char:
  assumes "foldingTable acc"
    and "plainChar c \<or> accentedLetter c \<and> (\<exists>u. toUpperCaseChar c = [u] \<and> u \<in> dom acc)"
  shows "filter (\<lambda>x. isWordChar x \<or> isWhiteSpace x)
           (concat (map (foldChar acc)
              (filter (\<lambda>x. \<not> isDecimalDigit x) (filter (\<lambda>x. x \<noteq> 32) (toUpperCaseChar c))))) =
         canonical acc c"
  using assms(2)
proof
  assume p: "plainChar c"
  have nk: "acc x = None" if "x < 128" for x
  proof (cases "acc x")
    case (Some v)
    then have "128 \<le> x" using assms(1) unfolding foldingTable_def by blast
    then show ?thesis using that by simp
  qed simp
  show ?thesis
  proof (cases "97 \<le> c \<and> c \<le> 122")
    case True
    define u where "u = c - 32"
    have r: "65 \<le> u" "u \<le> 90" using True by (auto simp: u_def)
    have "toUpperCaseChar c = [u]" using True by (simp add: toUpperCaseChar_def u_def)
    moreover have "acc u = None" using r by (intro nk) simp
    moreover have "isLetter c" using True by (simp add: isLetter_def)
    ultimately show ?thesis
      using r by (simp add: canonical_def foldChar_def isDecimalDigit_def isWordChar_def)
  next
    case False
    have u: "toUpperCaseChar c = [c]"
      using False p by (auto simp: toUpperCaseChar_def plainChar_def)
    have "c < 128" using p by (simp add: plainChar_def)
    then have k: "acc c = None" by (rule nk)
    show ?thesis
      unfolding u using False p k
      by (auto simp: canonical_def u isLetter_def foldChar_def isDecimalDigit_def
          isWordChar_def isWhiteSpace_def plainChar_def)
  qed
next
  assume "accentedLetter c \<and> (\<exists>u. toUpperCaseChar c = [u] \<and> u \<in> dom acc)"
  then obtain u v where a: "accentedLetter c" "toUpperCaseChar c = [u]" "acc u = Some v"
    by auto
  have k: "128 \<le> u" "\<forall>x\<in>set v. 65 \<le> x \<and> x \<le> 90"
    using assms(1) a(3) by (auto simp: foldingTable_def)
  have "filter (\<lambda>x. isWordChar x \<or> isWhiteSpace x) v = v"
    using k(2) by (auto simp: isWordChar_def filter_id_conv)
  moreover have "isLetter c" using a(1) by (auto simp: accentedLetter_def isLetter_def)
  ultimately show ?thesis
    using a k(1) by (simp add: canonical_def foldChar_def isDecimalDigit_def)
qed

lemma formatWord_part_000_canonical:
  assumes "foldingTable acc" "foldable acc s"
  shows "formatWord_part_000 acc s = concat (map (canonical acc) s)"
proof -
  have "formatWord_part_000 acc s =
        concat (map (\<lambda>c. filter (\<lambda>x. isWordChar x \<or> isWhiteSpace x)
           (concat (map (foldChar acc)
              (filter (\<lambda>x. \<not> isDecimalDigit x) (filter (\<lambda>x. x \<noteq> 32) (toUpperCaseChar c)))))) s)"
    unfolding formatWord_part_000_def removeSpecialCharacters_part_000_def
      removeAccentuation_concat[OF foldingTable_values[OF assms(1)]]
      removeNumbers_def removeWhitespaces_def uppercase_def
    by (simp only: filter_concat_map map_concat_map map_map o_def)
  also have "\<dots> = concat (map (canonical acc) s)"
    using assms(2) part_000_char[OF assms(1)]
    by (intro arg_cong[where f = concat] map_cong) (auto simp: foldable_def)
  finally show ?thesis .
qed

lemmas format_part_000_eval = formatWord_part_000_def
  removeSpecialCharacters_part_000_def isWordChar_def isWhiteSpace_def

text \<open>
  Claim C5, as stated, fails: on the text made of one underscore the in-place variant
  gives the empty word and the single-argument variant keeps the underscore.
\<close>

theorem C5_variants_differ_counterexample:
  "formatWord exampleAccentuation (str ''_'') = [] \<and>
   formatWord_part_000 exampleAccentuation (str ''_'') = str ''_'' \<and>
   formatWord exampleAccentuation (str ''_'') \<noteq> formatWord_part_000 exampleAccentuation (str ''_'')"
  by (simp add: format_eval format_part_000_eval str_def)

text \<open>
  Claim C5, amended. With a folding table (keys outside ASCII, values made of the capital
  letters A to Z), the two variants of \<^verbatim>\<open>formatWord\<close> give the same canonical word
  on every text made of plain characters (ASCII other than the underscore, tab, line
  feed, vertical tab, form feed and carriage return) and of accented letters whose
  capital form is a key of the table.
\<close>

theorem C5_variants_agree_on_foldable_text:
  "foldingTable acc \<and> foldable acc s \<longrightarrow> formatWord acc s = formatWord_part_000 acc s"
  by (simp add: formatWord_canonical formatWord_part_000_canonical)

theorem C5_variants_agree_on_foldable_text_witness:
  "foldingTable exampleAccentuation \<and>
   foldable exampleAccentuation (str ''caf'' @ [233] @ str '' 123!'') \<and>
   formatWord exampleAccentuation (str ''caf'' @ [233] @ str '' 123!'') = str ''CAFE'' \<and>
   formatWord_part_000 exampleAccentuation (str ''caf'' @ [233] @ str '' 123!'') = str ''CAFE''"
proof -
  have t: "foldingTable exampleAccentuation"
    by (auto simp: foldingTable_def exampleAccentuation_def split: if_splits)
  have f: "foldable exampleAccentuation (str ''caf'' @ [233] @ str '' 123!'')"
    by (simp add: foldable_def plainChar_def accentedLetter_def toUpperCaseChar_def
        exampleAccentuation_def str_def)
  have a: "formatWord exampleAccentuation (str ''caf'' @ [233] @ str '' 123!'') = str ''CAFE''"
    by (simp add: format_eval str_def)
  show ?thesis
    using C5_variants_agree_on_foldable_text[of exampleAccentuation
        "str ''caf'' @ [233] @ str '' 123!''"] t f a
    by simp
qed

end
